theory Spec2Isabelle
  imports Main "HOL-Library.Word"
begin

section \<open>Values of the driver\<close>

text \<open>
  The driver of \<^verbatim>\<open>BOSA.py\<close> runs on Python 3 (its test scripts use \<^verbatim>\<open>yield from\<close>).
  A \<^verbatim>\<open>bytes\<close> object is a list of 8-bit words; a \<^verbatim>\<open>str\<close> is the list of its code points.
  Exceptions are values of \<open>error\<close>; a function that may raise returns \<open>error + 'a\<close>
  with \<open>Inl\<close> for the exception. An exception discards the state, so what the handlers of the
  source log and print before they re-raise is not kept. Calls of the logger are not modelled.
\<close>

type_synonym byte = "8 word"
type_synonym bytes = "byte list"
type_synonym pystr = "nat list"

datatype error =
    AttributeError
  | ValueError
  | TypeError
  | UnboundLocalError
  | SocketTimeout
  | OSError
  | VisaIOError
  | UnicodeDecodeError
  | UnicodeEncodeError
  | StructError
  | Exception

definition str :: "string \<Rightarrow> pystr" where
  "str cs = map of_char cs"

text \<open>
  \<^verbatim>\<open>str.lower()\<close> and \<^verbatim>\<open>str.upper()\<close>. The ASCII letters are mapped, and so are the code
  points beyond ASCII that Python maps to ASCII letters only: in lower case the Kelvin sign
  U+212A gives \<^verbatim>\<open>k\<close>; in upper case the dotless i U+0131 gives \<^verbatim>\<open>I\<close>, the long s U+017F
  gives \<^verbatim>\<open>S\<close>, the sharp s U+00DF gives \<^verbatim>\<open>SS\<close> and the ligatures U+FB00 to U+FB06 give
  \<^verbatim>\<open>FF\<close>, \<^verbatim>\<open>FI\<close>, \<^verbatim>\<open>FL\<close>, \<^verbatim>\<open>FFI\<close>, \<^verbatim>\<open>FFL\<close>, \<^verbatim>\<open>ST\<close> and \<^verbatim>\<open>ST\<close>. The capital I with a
  dot U+0130 is mapped as Python does in lower case, to \<^verbatim>\<open>i\<close> followed by the combining dot
  U+0307. Every other code point beyond ASCII is left as it is: Python's mapping of it keeps a
  code point beyond ASCII, so neither here nor in Python is a string that holds it mapped onto
  one of the ASCII keywords the driver compares with.
\<close>

definition lower :: "pystr \<Rightarrow> pystr" where
  "lower t = concat (map (\<lambda>c. if 65 \<le> c \<and> c \<le> 90 then [c + 32]
                              else if c = 0x130 then [0x69, 0x307]
                              else if c = 0x212A then [0x6B]
                              else [c]) t)"

definition upper :: "pystr \<Rightarrow> pystr" where
  "upper t = concat (map (\<lambda>c. if 97 \<le> c \<and> c \<le> 122 then [c - 32]
                              else if c = 0x131 then [0x49]
                              else if c = 0x17F then [0x53]
                              else if c = 0xDF then [0x53, 0x53]
                              else if c = 0xFB00 then [0x46, 0x46]
                              else if c = 0xFB01 then [0x46, 0x49]
                              else if c = 0xFB02 then [0x46, 0x4C]
                              else if c = 0xFB03 then [0x46, 0x46, 0x49]
                              else if c = 0xFB04 then [0x46, 0x46, 0x4C]
                              else if c = 0xFB05 \<or> c = 0xFB06 then [0x53, 0x54]
                              else [c]) t)"

section \<open>The network socket\<close>

text \<open>
  The socket of \<^verbatim>\<open>connectLan\<close>. \<open>frags\<close> holds the fragments in which the bytes of the
  instrument will arrive, in order; \<open>at_end\<close> says what a receive meets once they are used up:
  the peer has closed the connection (\<^verbatim>\<open>recv\<close> returns \<^verbatim>\<open>b''\<close>) or the peer is silent
  (\<^verbatim>\<open>recv\<close> raises \<^verbatim>\<open>socket.timeout\<close> after the 30 seconds set at connection).
  \<open>sent\<close> are the payloads written by \<^verbatim>\<open>sendall\<close>; \<open>recv_log\<close> holds, for each call of
  \<^verbatim>\<open>recv\<close> that returned, the buffer size asked and the bytes returned. Both are in call order.
\<close>

datatype ending = PeerClosed | Silent

record sock =
  frags :: "bytes list"
  at_end :: ending
  sent :: "bytes list"
  send_fault :: bool
  recv_log :: "(int \<times> bytes) list"
  sock_closed :: bool
  sock_close_fault :: bool

text \<open>
  What the next arrival gives to a receive of at most \<open>n\<close> bytes (\<open>n > 0\<close>): the whole
  fragment when it fits, its first \<open>n\<close> bytes otherwise, the rest staying in front. A fragment
  of no bytes is no arrival. The result is empty only when nothing is left.
\<close>

fun deliver :: "nat \<Rightarrow> bytes list \<Rightarrow> bytes \<times> bytes list" where
  "deliver n [] = ([], [])"
| "deliver n (f # fs) =
     (if f = [] then deliver n fs
      else if length f \<le> n then (f, fs)
      else (take n f, drop n f # fs))"

text \<open>
  \<^verbatim>\<open>socket.recv(bufsize)\<close>: a negative size is a \<^verbatim>\<open>ValueError\<close>, a size of zero returns
  \<^verbatim>\<open>b''\<close> without touching the connection, and a closed socket raises \<^verbatim>\<open>OSError\<close>.
\<close>

definition recv :: "sock \<Rightarrow> int \<Rightarrow> error + bytes \<times> sock" where
  "recv s bufsize =
     (if bufsize < 0 then Inl ValueError
      else if bufsize = 0 then Inr ([], s\<lparr>recv_log := recv_log s @ [(bufsize, [])]\<rparr>)
      else if sock_closed s then Inl OSError
      else (let (d, rest) = deliver (nat bufsize) (frags s) in
            if d = [] then
              (case at_end s of
                 PeerClosed \<Rightarrow> Inr ([], s\<lparr>frags := [], recv_log := recv_log s @ [(bufsize, [])]\<rparr>)
               | Silent \<Rightarrow> Inl SocketTimeout)
            else Inr (d, s\<lparr>frags := rest, recv_log := recv_log s @ [(bufsize, d)]\<rparr>)))"

text \<open>\<^verbatim>\<open>socket.sendall(data)\<close> writes every byte of \<open>data\<close> or raises.\<close>

definition sendall :: "sock \<Rightarrow> bytes \<Rightarrow> error + sock" where
  "sendall s data =
     (if sock_closed s \<or> send_fault s then Inl OSError
      else Inr (s\<lparr>sent := sent s @ [data]\<rparr>))"

text \<open>\<^verbatim>\<open>socket.close()\<close>; closing a closed socket is allowed.\<close>

definition sock_close :: "sock \<Rightarrow> error + sock" where
  "sock_close s =
     (if sock_closed s then Inr s
      else if sock_close_fault s then Inl OSError
      else Inr (s\<lparr>sock_closed := True\<rparr>))"

section \<open>The VISA resource\<close>

text \<open>
  The message-based resource returned by \<^verbatim>\<open>visa.ResourceManager().open_resource(location)\<close>.
  \<open>inbox\<close> are the messages of the instrument that are still to be read, \<open>written\<close> the
  byte strings put on the bus. \<open>write_termination\<close> is the attribute of that name, which the
  library appends to every message of \<^verbatim>\<open>write\<close>. The resource encodes and decodes with
  ASCII. A read with nothing in the inbox ends with the timeout error of the library.
\<close>

record visa =
  inbox :: "bytes list"
  written :: "bytes list"
  write_termination :: pystr
  write_fault :: bool
  visa_closed :: bool
  visa_close_fault :: bool

definition CRLF :: pystr where
  "CRLF = [13, 10]"

definition encode_ascii :: "pystr \<Rightarrow> error + bytes" where
  "encode_ascii t = (if list_all (\<lambda>c. c < 128) t then Inr (map of_nat t) else Inl UnicodeEncodeError)"

definition decode_ascii :: "bytes \<Rightarrow> error + pystr" where
  "decode_ascii bs = (if list_all (\<lambda>b. b < 128) bs then Inr (map unat bs) else Inl UnicodeDecodeError)"

definition visa_write :: "visa \<Rightarrow> pystr \<Rightarrow> error + visa" where
  "visa_write v message =
     (case encode_ascii (message @ write_termination v) of
        Inl e \<Rightarrow> Inl e
      | Inr data \<Rightarrow>
          if visa_closed v \<or> write_fault v then Inl VisaIOError
          else Inr (v\<lparr>written := written v @ [data]\<rparr>))"

definition visa_read :: "visa \<Rightarrow> error + pystr \<times> visa" where
  "visa_read v =
     (if visa_closed v then Inl VisaIOError
      else (case inbox v of
              [] \<Rightarrow> Inl VisaIOError
            | m # ms \<Rightarrow>
                (case decode_ascii m of
                   Inl e \<Rightarrow> Inl e
                 | Inr t \<Rightarrow> Inr (t, v\<lparr>inbox := ms\<rparr>))))"

text \<open>
  \<^verbatim>\<open>read_bytes(count, chunk_size=None, break_on_termchar=False)\<close> returns exactly \<open>count\<close>
  bytes, or raises when the instrument stops before.
\<close>

definition visa_read_bytes :: "visa \<Rightarrow> int \<Rightarrow> error + bytes \<times> visa" where
  "visa_read_bytes v count =
     (if visa_closed v then Inl VisaIOError
      else if count \<le> 0 then Inr ([], v)
      else if length (concat (inbox v)) < nat count then Inl VisaIOError
      else Inr (take (nat count) (concat (inbox v)),
                v\<lparr>inbox := [drop (nat count) (concat (inbox v))]\<rparr>))"

text \<open>
  \<^verbatim>\<open>read_ascii_values(converter='f', separator=',', container=list, delay=None)\<close> reads one
  message and parses its comma-separated numbers. The parser of floating-point numerals is a
  parameter \<open>parse\<close>.
\<close>

definition visa_read_ascii_values :: "(bytes \<Rightarrow> error + 'f list) \<Rightarrow> visa \<Rightarrow> error + 'f list \<times> visa" where
  "visa_read_ascii_values parse v =
     (if visa_closed v then Inl VisaIOError
      else (case inbox v of
              [] \<Rightarrow> Inl VisaIOError
            | m # ms \<Rightarrow>
                (case parse m of
                   Inl e \<Rightarrow> Inl e
                 | Inr xs \<Rightarrow> Inr (xs, v\<lparr>inbox := ms\<rparr>))))"

definition visa_close :: "visa \<Rightarrow> error + visa" where
  "visa_close v =
     (if visa_closed v then Inr v
      else if visa_close_fault v then Inl VisaIOError
      else Inr (v\<lparr>visa_closed := True\<rparr>))"

section \<open>The driver object\<close>

text \<open>
  The attributes of a \<^verbatim>\<open>BOSA23095\<close> object that its methods read: \<open>interfaceType\<close>, and
  \<open>instrument\<close>, which is \<open>None\<close> as long as the attribute has not been assigned. \<open>printed\<close>
  are the lines written by \<^verbatim>\<open>print\<close>. \<open>history\<close> is not an attribute of the source: it
  records, in call order, each entry into \<^verbatim>\<open>write\<close> and into one of the three read methods.
\<close>

datatype handle = Socket sock | Visa visa

datatype call = CWrite pystr | CRead

record bosa =
  interfaceType :: pystr
  instrument :: "handle option"
  printed :: "pystr list"
  history :: "call list"

text \<open>
  The state of an object whose channel is open: on \<^verbatim>\<open>"lan"\<close> (in any case of the letters)
  \<open>instrument\<close> is a socket, on \<^verbatim>\<open>"gpib"\<close> it is a resource whose termination is CR LF.
  \<open>incoming\<close> are the bytes the instrument has still to deliver.
\<close>

definition connected :: "bosa \<Rightarrow> bool" where
  "connected self =
     (case instrument self of
        None \<Rightarrow> False
      | Some (Socket s) \<Rightarrow> lower (interfaceType self) = str ''lan'' \<and> \<not> sock_closed s
      | Some (Visa v) \<Rightarrow>
          lower (interfaceType self) = str ''gpib'' \<and> \<not> visa_closed v \<and> write_termination v = CRLF)"

definition incoming :: "bosa \<Rightarrow> bytes" where
  "incoming self =
     (case instrument self of
        None \<Rightarrow> []
      | Some (Socket s) \<Rightarrow> concat (frags s)
      | Some (Visa v) \<Rightarrow> concat (inbox v))"

section \<open>Binary traces\<close>

text \<open>
  The receive loop of \<^verbatim>\<open>read_TRACE_REAL\<close> on the LAN interface. It leaves only when
  \<open>msgLength\<close> has reached zero or \<^verbatim>\<open>recv\<close> raises; when neither happens it does not return,
  which is the value \<open>None\<close>.
\<close>

partial_function (option) recv_trace :: "sock \<Rightarrow> int \<Rightarrow> bytes \<Rightarrow> (error + bytes \<times> sock) option" where
  "recv_trace s msgLength response_byte_array =
     (case (if msgLength < 19200 then recv s msgLength else recv s 19200) of
        Inl e \<Rightarrow> Some (Inl e)
      | Inr (Byte_data, s') \<Rightarrow>
          (if msgLength - int (length Byte_data) = 0
           then Some (Inr (response_byte_array @ Byte_data, s'))
           else recv_trace s' (msgLength - int (length Byte_data)) (response_byte_array @ Byte_data)))"

declare recv_trace.simps [code]

text \<open>
  \<^verbatim>\<open>struct.unpack('d', b)\<close> needs exactly eight bytes and returns a 1-tuple holding the float
  they encode in the byte order of the machine. That decoding is the parameter \<open>unpack\<close>.
  A cell of the trace holds the integer 0 it was created with or such a 1-tuple.
\<close>

datatype 'f cell = Zero | Tuple1 'f

type_synonym 'f row = "'f cell \<times> 'f cell"

definition struct_unpack_d :: "(bytes \<Rightarrow> 'f) \<Rightarrow> bytes \<Rightarrow> error + 'f cell" where
  "struct_unpack_d unpack b = (if length b = 8 then Inr (Tuple1 (unpack b)) else Inl StructError)"

text \<open>The slice \<^verbatim>\<open>b[i:j]\<close> for \<open>0 \<le> i\<close> and \<open>0 \<le> j\<close>.\<close>

definition slice :: "'a list \<Rightarrow> nat \<Rightarrow> nat \<Rightarrow> 'a list" where
  "slice b i j = take (j - i) (drop i b)"

text \<open>The loop \<^verbatim>\<open>for x in range(0, int(NumPoints))\<close>, over the indices still to visit.\<close>

fun fill_trace :: "(bytes \<Rightarrow> 'f) \<Rightarrow> bytes \<Rightarrow> nat list \<Rightarrow> 'f row list \<Rightarrow> error + 'f row list" where
  "fill_trace unpack response_byte_array [] Trace = Inr Trace"
| "fill_trace unpack response_byte_array (x # xs) Trace =
     (case struct_unpack_d unpack (slice response_byte_array (x * 16) (x * 16 + 8)) of
        Inl e \<Rightarrow> Inl e
      | Inr a \<Rightarrow>
          (let Trace1 = Trace[x := (a, snd (Trace ! x))] in
           case struct_unpack_d unpack (slice response_byte_array (x * 16 + 8) ((x + 1) * 16)) of
             Inl e \<Rightarrow> Inl e
           | Inr b \<Rightarrow> fill_trace unpack response_byte_array xs (Trace1[x := (fst (Trace1 ! x), b)])))"

definition decode_trace :: "(bytes \<Rightarrow> 'f) \<Rightarrow> bytes \<Rightarrow> nat \<Rightarrow> error + 'f row list" where
  "decode_trace unpack response_byte_array NumPoints =
     fill_trace unpack response_byte_array [0..<NumPoints] (replicate NumPoints (Zero, Zero))"

text \<open>
  \<^verbatim>\<open>read_TRACE_REAL(self, interfaceType, NumPoints)\<close>. The parameter \<open>interfaceType\<close> is not
  used by the source, which tests the attribute of the object. A point count is a natural
  number. An \<^verbatim>\<open>instrument\<close> of the other kind has not the method that is called, an
  \<^verbatim>\<open>AttributeError\<close>. On the GPIB interface the test \<^verbatim>\<open>response_byte_array != ''\<close> compares
  bytes with a string, which are never equal, so the loop is left after its first read.
\<close>

definition read_TRACE_REAL ::
  "(bytes \<Rightarrow> 'f) \<Rightarrow> bosa \<Rightarrow> pystr \<Rightarrow> nat \<Rightarrow> (error + 'f row list \<times> bosa) option" where
  "read_TRACE_REAL unpack self interfaceType_arg NumPoints =
     (let msgLength = int (NumPoints * 2 * 8);
          self1 = self\<lparr>history := history self @ [CRead]\<rparr> in
      if lower (interfaceType self) = str ''lan'' then
        (case instrument self of
           Some (Socket s) \<Rightarrow>
             (case recv_trace s msgLength [] of
                None \<Rightarrow> None
              | Some (Inl e) \<Rightarrow> Some (Inl e)
              | Some (Inr (response_byte_array, s')) \<Rightarrow>
                  (case decode_trace unpack response_byte_array NumPoints of
                     Inl e \<Rightarrow> Some (Inl e)
                   | Inr Trace \<Rightarrow> Some (Inr (Trace, self1\<lparr>instrument := Some (Socket s')\<rparr>))))
         | _ \<Rightarrow> Some (Inl AttributeError))
      else if lower (interfaceType self) = str ''gpib'' then
        (case instrument self of
           Some (Visa v) \<Rightarrow>
             (case visa_read_bytes v msgLength of
                Inl e \<Rightarrow> Some (Inl e)
              | Inr (response_byte_array, v') \<Rightarrow>
                  (case decode_trace unpack response_byte_array NumPoints of
                     Inl e \<Rightarrow> Some (Inl e)
                   | Inr Trace \<Rightarrow> Some (Inr (Trace, self1\<lparr>instrument := Some (Visa v')\<rparr>))))
         | _ \<Rightarrow> Some (Inl AttributeError))
      else
        (case decode_trace unpack [] NumPoints of
           Inl e \<Rightarrow> Some (Inl e)
         | Inr Trace \<Rightarrow> Some (Inr (Trace, self1))))"

section \<open>Text on the wire\<close>

text \<open>
  \<^verbatim>\<open>bytes.decode()\<close> and \<^verbatim>\<open>str.encode()\<close> without arguments use UTF-8 and are strict: a byte
  sequence that is not the shortest encoding of a code point other than a surrogate raises
  \<^verbatim>\<open>UnicodeDecodeError\<close>, so does a sequence that stops inside a character, and a surrogate
  code point raises \<^verbatim>\<open>UnicodeEncodeError\<close>.
\<close>

definition cont :: "byte \<Rightarrow> bool" where
  "cont c = (0x80 \<le> c \<and> c \<le> 0xBF)"

fun utf8_decode :: "bytes \<Rightarrow> error + pystr" where
  "utf8_decode [] = Inr []"
| "utf8_decode (b # bs) =
     (if b < 0x80 then
        (case utf8_decode bs of Inl e \<Rightarrow> Inl e | Inr t \<Rightarrow> Inr (unat b # t))
      else if 0xC2 \<le> b \<and> b \<le> 0xDF then
        (case bs of
           c1 # r \<Rightarrow>
             if cont c1 then
               (case utf8_decode r of
                  Inl e \<Rightarrow> Inl e
                | Inr t \<Rightarrow> Inr (((unat b - 0xC0) * 64 + (unat c1 - 0x80)) # t))
             else Inl UnicodeDecodeError
         | _ \<Rightarrow> Inl UnicodeDecodeError)
      else if 0xE0 \<le> b \<and> b \<le> 0xEF then
        (case bs of
           c1 # c2 # r \<Rightarrow>
             if cont c1 \<and> cont c2 \<and> (if b = 0xE0 then 0xA0 \<le> c1 else True)
                \<and> (if b = 0xED then c1 < 0xA0 else True) then
               (case utf8_decode r of
                  Inl e \<Rightarrow> Inl e
                | Inr t \<Rightarrow>
                    Inr (((unat b - 0xE0) * 4096 + (unat c1 - 0x80) * 64 + (unat c2 - 0x80)) # t))
             else Inl UnicodeDecodeError
         | _ \<Rightarrow> Inl UnicodeDecodeError)
      else if 0xF0 \<le> b \<and> b \<le> 0xF4 then
        (case bs of
           c1 # c2 # c3 # r \<Rightarrow>
             if cont c1 \<and> cont c2 \<and> cont c3 \<and> (if b = 0xF0 then 0x90 \<le> c1 else True)
                \<and> (if b = 0xF4 then c1 < 0x90 else True) then
               (case utf8_decode r of
                  Inl e \<Rightarrow> Inl e
                | Inr t \<Rightarrow>
                    Inr (((unat b - 0xF0) * 262144 + (unat c1 - 0x80) * 4096
                          + (unat c2 - 0x80) * 64 + (unat c3 - 0x80)) # t))
             else Inl UnicodeDecodeError
         | _ \<Rightarrow> Inl UnicodeDecodeError)
      else Inl UnicodeDecodeError)"

definition utf8_encode_point :: "nat \<Rightarrow> error + bytes" where
  "utf8_encode_point c =
     (if c < 0x80 then Inr [of_nat c]
      else if c < 0x800 then Inr [of_nat (0xC0 + c div 64), of_nat (0x80 + c mod 64)]
      else if c < 0x10000 then
        (if 0xD800 \<le> c \<and> c \<le> 0xDFFF then Inl UnicodeEncodeError
         else Inr [of_nat (0xE0 + c div 4096), of_nat (0x80 + (c div 64) mod 64),
                   of_nat (0x80 + c mod 64)])
      else if c < 0x110000 then
        Inr [of_nat (0xF0 + c div 262144), of_nat (0x80 + (c div 4096) mod 64),
             of_nat (0x80 + (c div 64) mod 64), of_nat (0x80 + c mod 64)]
      else Inl UnicodeEncodeError)"

fun utf8_encode :: "pystr \<Rightarrow> error + bytes" where
  "utf8_encode [] = Inr []"
| "utf8_encode (c # cs) =
     (case utf8_encode_point c of
        Inl e \<Rightarrow> Inl e
      | Inr bs \<Rightarrow> (case utf8_encode cs of Inl e \<Rightarrow> Inl e | Inr rest \<Rightarrow> Inr (bs @ rest)))"

section \<open>Writing and reading lines\<close>

text \<open>
  \<^verbatim>\<open>write(self, command)\<close>, named \<open>write_cmd\<close> here. On the LAN interface the driver
  itself appends \<^verbatim>\<open>"\r\n"\<close> and encodes; on the GPIB interface it passes \<open>command\<close> to the
  \<^verbatim>\<open>write\<close> of the resource. With another interface type nothing is done.
\<close>

definition write_cmd :: "bosa \<Rightarrow> pystr \<Rightarrow> error + bosa" where
  "write_cmd self command =
     (let self1 = self\<lparr>history := history self @ [CWrite command]\<rparr> in
      if lower (interfaceType self) = str ''lan'' then
        (case instrument self of
           Some (Socket s) \<Rightarrow>
             (case utf8_encode (command @ CRLF) of
                Inl e \<Rightarrow> Inl e
              | Inr data \<Rightarrow>
                  (case sendall s data of
                     Inl e \<Rightarrow> Inl e
                   | Inr s' \<Rightarrow> Inr (self1\<lparr>instrument := Some (Socket s')\<rparr>)))
         | _ \<Rightarrow> Inl AttributeError)
      else if lower (interfaceType self) = str ''gpib'' then
        (case instrument self of
           Some (Visa v) \<Rightarrow>
             (case visa_write v command of
                Inl e \<Rightarrow> Inl e
              | Inr v' \<Rightarrow> Inr (self1\<lparr>instrument := Some (Visa v')\<rparr>))
         | _ \<Rightarrow> Inl AttributeError)
      else Inr self1)"

text \<open>
  The loop of \<^verbatim>\<open>read\<close> on the LAN interface: receive at most 115200 bytes, decode them, append
  them to \<open>message\<close>, and leave once \<open>message\<close> holds a line feed (code point 10).
\<close>

partial_function (option) read_lan :: "sock \<Rightarrow> pystr \<Rightarrow> (error + pystr \<times> sock) option" where
  "read_lan s message =
     (case recv s 115200 of
        Inl e \<Rightarrow> Some (Inl e)
      | Inr (data, s') \<Rightarrow>
          (case utf8_decode data of
             Inl e \<Rightarrow> Some (Inl e)
           | Inr t \<Rightarrow>
               if 10 \<in> set (message @ t) then Some (Inr (message @ t, s'))
               else read_lan s' (message @ t)))"

declare read_lan.simps [code]

text \<open>
  The loop of \<^verbatim>\<open>read\<close> on the GPIB interface: read messages until one is not empty. Each
  read takes a message out of the inbox or raises, so the loop ends.
\<close>

function read_gpib :: "visa \<Rightarrow> error + pystr \<times> visa" where
  "read_gpib v =
     (case visa_read v of
        Inl e \<Rightarrow> Inl e
      | Inr (message, v') \<Rightarrow> if message \<noteq> [] then Inr (message, v') else read_gpib v')"
  by pat_completeness auto
termination
  by (relation "measure (\<lambda>v. length (inbox v))")
     (auto simp: visa_read_def split: if_splits list.splits sum.splits)

definition read :: "bosa \<Rightarrow> (error + pystr \<times> bosa) option" where
  "read self =
     (let self1 = self\<lparr>history := history self @ [CRead]\<rparr> in
      if lower (interfaceType self) = str ''lan'' then
        (case instrument self of
           Some (Socket s) \<Rightarrow>
             (case read_lan s [] of
                None \<Rightarrow> None
              | Some (Inl e) \<Rightarrow> Some (Inl e)
              | Some (Inr (message, s')) \<Rightarrow>
                  Some (Inr (message, self1\<lparr>instrument := Some (Socket s')\<rparr>)))
         | _ \<Rightarrow> Some (Inl AttributeError))
      else if lower (interfaceType self) = str ''gpib'' then
        (case instrument self of
           Some (Visa v) \<Rightarrow>
             (case read_gpib v of
                Inl e \<Rightarrow> Some (Inl e)
              | Inr (message, v') \<Rightarrow> Some (Inr (message, self1\<lparr>instrument := Some (Visa v')\<rparr>)))
         | _ \<Rightarrow> Some (Inl AttributeError))
      else Some (Inr ([], self1)))"

definition ask :: "bosa \<Rightarrow> pystr \<Rightarrow> (error + pystr \<times> bosa) option" where
  "ask self command =
     (case write_cmd self command of
        Inl e \<Rightarrow> Some (Inl e)
      | Inr self1 \<Rightarrow> read self1)"

section \<open>Trace queries\<close>

definition ask_TRACE_REAL ::
  "(bytes \<Rightarrow> 'f) \<Rightarrow> bosa \<Rightarrow> pystr \<Rightarrow> nat \<Rightarrow> (error + 'f row list \<times> bosa) option" where
  "ask_TRACE_REAL unpack self interfaceType_arg NumPoints =
     (case write_cmd self (str ''TRAC?'') of
        Inl e \<Rightarrow> Some (Inl e)
      | Inr self1 \<Rightarrow> read_TRACE_REAL unpack self1 interfaceType_arg NumPoints)"

text \<open>
  \<^verbatim>\<open>read_TRACE_ASCII\<close> calls \<^verbatim>\<open>read_ascii_values\<close> on \<open>instrument\<close> without a test of the
  interface type; a socket has no such method. The list returned is compared with a string,
  which it never equals, so the loop is left after its first read.
\<close>

definition read_TRACE_ASCII :: "(bytes \<Rightarrow> error + 'f list) \<Rightarrow> bosa \<Rightarrow> error + 'f list \<times> bosa" where
  "read_TRACE_ASCII parse self =
     (case instrument self of
        Some (Visa v) \<Rightarrow>
          (case visa_read_ascii_values parse v of
             Inl e \<Rightarrow> Inl e
           | Inr (Byte_data, v') \<Rightarrow>
               Inr (Byte_data, self\<lparr>history := history self @ [CRead], instrument := Some (Visa v')\<rparr>))
      | _ \<Rightarrow> Inl AttributeError)"

definition ask_TRACE_ASCII :: "(bytes \<Rightarrow> error + 'f list) \<Rightarrow> bosa \<Rightarrow> error + 'f list \<times> bosa" where
  "ask_TRACE_ASCII parse self =
     (case write_cmd self (str ''FORM ASCII'') of
        Inl e \<Rightarrow> Inl e
      | Inr self1 \<Rightarrow>
          (case write_cmd self1 (str ''TRAC?'') of
             Inl e \<Rightarrow> Inl e
           | Inr self2 \<Rightarrow> read_TRACE_ASCII parse self2))"

section \<open>Tearing down\<close>

text \<open>
  \<^verbatim>\<open>__del__\<close>. Both branches call \<^verbatim>\<open>self.instrument.close()\<close>. The handler evaluates
  \<^verbatim>\<open>e.message\<close> before it calls the logger; \<open>message_attr\<close> is that attribute, which no
  exception of Python 3 has.
\<close>

definition message_attr :: "error \<Rightarrow> pystr option" where
  "message_attr e = None"

definition instrument_close :: "bosa \<Rightarrow> error + bosa" where
  "instrument_close self =
     (case instrument self of
        None \<Rightarrow> Inl AttributeError
      | Some (Socket s) \<Rightarrow>
          (case sock_close s of
             Inl e \<Rightarrow> Inl e
           | Inr s' \<Rightarrow> Inr (self\<lparr>instrument := Some (Socket s')\<rparr>))
      | Some (Visa v) \<Rightarrow>
          (case visa_close v of
             Inl e \<Rightarrow> Inl e
           | Inr v' \<Rightarrow> Inr (self\<lparr>instrument := Some (Visa v')\<rparr>)))"

definition del :: "bosa \<Rightarrow> error + bosa" where
  "del self =
     (case (if upper (interfaceType self) = str ''LAN'' then instrument_close self
            else if upper (interfaceType self) = str ''GPIB'' then instrument_close self
            else Inr self) of
        Inr self' \<Rightarrow> Inr self'
      | Inl e \<Rightarrow>
          (case message_attr e of
             None \<Rightarrow> Inl AttributeError
           | Some m \<Rightarrow> Inr self))"

section \<open>Setters\<close>

text \<open>
  The arguments of a setter are Python values of any type: \<^verbatim>\<open>None\<close>, a boolean, an integer
  or a string (floats are left out). \<open>py_eq\<close> is \<^verbatim>\<open>==\<close>, which compares booleans and integers
  as numbers; \<open>py_in\<close> is \<^verbatim>\<open>in\<close> on a tuple; \<open>truthy\<close> is the truth value used by \<^verbatim>\<open>or\<close>;
  \<open>py_str\<close> is \<^verbatim>\<open>str()\<close>; \<open>py_concat s v\<close> is \<^verbatim>\<open>s + v\<close> for a string \<open>s\<close>, a
  \<^verbatim>\<open>TypeError\<close> unless \<open>v\<close> is a string.
\<close>

datatype pyval = PNone | PBool bool | PInt int | PStr pystr

fun num :: "pyval \<Rightarrow> int option" where
  "num (PBool b) = Some (if b then 1 else 0)"
| "num (PInt i) = Some i"
| "num v = None"

definition py_eq :: "pyval \<Rightarrow> pyval \<Rightarrow> bool" where
  "py_eq a b =
     (case num a of
        Some x \<Rightarrow> (case num b of Some y \<Rightarrow> x = y | None \<Rightarrow> False)
      | None \<Rightarrow> (case num b of Some y \<Rightarrow> False | None \<Rightarrow> a = b))"

definition py_in :: "pyval \<Rightarrow> pyval list \<Rightarrow> bool" where
  "py_in x xs = list_ex (py_eq x) xs"

fun truthy :: "pyval \<Rightarrow> bool" where
  "truthy PNone = False"
| "truthy (PBool b) = b"
| "truthy (PInt i) = (i \<noteq> 0)"
| "truthy (PStr s) = (s \<noteq> [])"

fun digits :: "nat \<Rightarrow> pystr" where
  "digits n = (if n < 10 then [48 + n] else digits (n div 10) @ [48 + n mod 10])"

fun py_str :: "pyval \<Rightarrow> pystr" where
  "py_str PNone = str ''None''"
| "py_str (PBool b) = (if b then str ''True'' else str ''False'')"
| "py_str (PInt i) = (if i < 0 then 45 # digits (nat (- i)) else digits (nat i))"
| "py_str (PStr s) = s"

fun py_concat :: "pystr \<Rightarrow> pyval \<Rightarrow> error + pystr" where
  "py_concat s (PStr t) = Inr (s @ t)"
| "py_concat s v = Inl TypeError"

definition print :: "bosa \<Rightarrow> pystr \<Rightarrow> bosa" where
  "print self line = self\<lparr>printed := printed self @ [line]\<rparr>"

definition ask_val :: "bosa \<Rightarrow> pystr \<Rightarrow> (error + pyval \<times> bosa) option" where
  "ask_val self command =
     (case ask self command of
        None \<Rightarrow> None
      | Some (Inl e) \<Rightarrow> Some (Inl e)
      | Some (Inr (data, self')) \<Rightarrow> Some (Inr (PStr data, self')))"

text \<open>
  \<^verbatim>\<open>set_state(self, meas_state, on)\<close>; \<open>meas_state\<close> is a string. A setter that returns
  without a \<^verbatim>\<open>return\<close> statement returns \<^verbatim>\<open>None\<close>.
\<close>

definition set_state :: "bosa \<Rightarrow> pystr \<Rightarrow> pyval \<Rightarrow> (error + pyval \<times> bosa) option" where
  "set_state self meas_state on =
     (if upper meas_state \<in> set [str ''HOLD'', str ''RUN'']
         \<and> py_in on [PInt 1, PInt 0, PStr (str ''1''), PStr (str ''0''), PBool True, PBool False] then
        (let on1 = (if py_eq on (PBool True) then PInt 1
                    else if py_eq on (PBool False) then PInt 0
                    else on) in
         ask_val self (str ''INST:STAT:'' @ meas_state @ str '' '' @ py_str on1))
      else
        (case py_concat (str ''Measurement state '' @ meas_state @ str '' or state '') on of
           Inl e \<Rightarrow> Some (Inl e)
         | Inr t \<Rightarrow> Some (Inr (PNone, print self (t @ str '' not valid'')))))"

text \<open>
  \<^verbatim>\<open>set_bottomY(self, value, magnitude, window = False, scale = False)\<close>. The branch for a
  \<open>scale\<close> that is no boolean prints and goes on (it has no \<^verbatim>\<open>return\<close>), so the command is built
  with \<^verbatim>\<open>scal\<close> unbound, an \<^verbatim>\<open>UnboundLocalError\<close>.
\<close>

definition set_bottomY ::
  "bosa \<Rightarrow> pyval \<Rightarrow> pyval \<Rightarrow> pyval \<Rightarrow> pyval \<Rightarrow> (error + pyval \<times> bosa) option" where
  "set_bottomY self value magnitude window scale =
     (if py_eq window (PBool True) \<or> py_eq window (PBool False) then
        (let wind = (if py_eq window (PBool True) then str '':WIND'' else []) in
         if py_eq scale (PBool True) \<or> py_eq scale (PBool False) then
           (let scal = (if py_eq scale (PBool True) then str '':SCAL'' else []);
                mag = upper (py_str (if truthy magnitude then magnitude else PStr [])) in
            if mag \<in> set [str ''DBM'', str ''MW'', []] then
              (case py_concat (str ''DISP'' @ wind @ str '':TRAC:Y'' @ scal @ str '':BOTT '') value of
                 Inl e \<Rightarrow> Some (Inl e)
               | Inr command \<Rightarrow> ask_val self (command @ mag))
            else
              (case py_concat (str ''DISP'' @ wind @ str '':TRAC:Y'' @ scal @ str '':BOTT '') value of
                 Inl e \<Rightarrow> Some (Inl e)
               | Inr command \<Rightarrow> ask_val self command))
         else
           (case py_concat (str ''Value for scale must be boolean, instead it is '') scale of
              Inl e \<Rightarrow> Some (Inl e)
            | Inr line \<Rightarrow> Some (Inl UnboundLocalError)))
      else
        (case py_concat (str ''Value for window must be boolean, instead it is '') window of
           Inl e \<Rightarrow> Some (Inl e)
         | Inr line \<Rightarrow> Some (Inr (PNone, print self line))))"

section \<open>Construction\<close>

text \<open>
  \<^verbatim>\<open>connectLan\<close> creates a TCP socket, sets its timeout to 30 seconds and connects it to
  \<open>(location, portNo)\<close>. \<^verbatim>\<open>visa.ResourceManager().open_resource(location)\<close> returns a
  message-based resource; the driver passes the location only, so the resource has the
  \<^verbatim>\<open>write_termination\<close> of the library, which is CR LF (the class attribute
  \<^verbatim>\<open>_write_termination = CR + LF\<close> of \<^verbatim>\<open>MessageBasedResource\<close>), and no line of the driver
  assigns that attribute. In this model \<open>location\<close> is what answers at the address: a peer
  that accepts the TCP connection, given as the socket through which it will be heard, an
  instrument on the bus, given as the resource that reaches it, or nothing. Either call
  raises when what it looks for is not there.
\<close>

definition connectLan :: "bosa \<Rightarrow> handle option \<Rightarrow> error + bosa" where
  "connectLan self location =
     (case location of
        Some (Socket s) \<Rightarrow>
          Inr (self\<lparr>instrument := Some (Socket (s\<lparr>sent := [], recv_log := [], sock_closed := False\<rparr>))\<rparr>)
      | _ \<Rightarrow> Inl OSError)"

definition open_resource :: "handle option \<Rightarrow> error + visa" where
  "open_resource location =
     (case location of
        Some (Visa v) \<Rightarrow> Inr (v\<lparr>written := [], write_termination := CRLF, visa_closed := False\<rparr>)
      | _ \<Rightarrow> Inl VisaIOError)"

text \<open>
  \<^verbatim>\<open>__init__(self, interfaceType, location, portNo = 10000, IDN = True, Reset = False)\<close>,
  named \<open>init\<close> here. It connects, then on \<open>IDN\<close> writes \<^verbatim>\<open>*IDN?\<close>, reads the reply and
  prints it, then on \<open>Reset\<close> writes \<^verbatim>\<open>*RST\<close>. An interface type that is neither \<^verbatim>\<open>"lan"\<close>
  nor \<^verbatim>\<open>"gpib"\<close> raises \<^verbatim>\<open>Exception\<close>. The attributes \<open>location\<close>, \<open>portNo\<close> and
  \<open>activeTrace\<close> are read by no method modelled here.
\<close>

definition init :: "pystr \<Rightarrow> handle option \<Rightarrow> bool \<Rightarrow> bool \<Rightarrow> (error + bosa) option" where
  "init interfaceType_arg location IDN Reset =
     (let self = \<lparr>interfaceType = interfaceType_arg, instrument = None, printed = [], history = []\<rparr> in
      case (if lower interfaceType_arg = str ''lan'' then connectLan self location
            else if lower interfaceType_arg = str ''gpib'' then
              (case open_resource location of
                 Inl e \<Rightarrow> Inl e
               | Inr v \<Rightarrow> Inr (self\<lparr>instrument := Some (Visa v)\<rparr>))
            else Inl Exception) of
        Inl e \<Rightarrow> Some (Inl e)
      | Inr self1 \<Rightarrow>
          (case (if IDN then
                   (case write_cmd self1 (str ''*IDN?'') of
                      Inl e \<Rightarrow> Some (Inl e)
                    | Inr self2 \<Rightarrow>
                        (case read self2 of
                           None \<Rightarrow> None
                         | Some (Inl e) \<Rightarrow> Some (Inl e)
                         | Some (Inr (response, self3)) \<Rightarrow>
                             Some (Inr (print self3 (str ''IDN= '' @ response)))))
                 else Some (Inr self1)) of
             None \<Rightarrow> None
           | Some (Inl e) \<Rightarrow> Some (Inl e)
           | Some (Inr self4) \<Rightarrow>
               (if Reset then Some (write_cmd self4 (str ''*RST'')) else Some (Inr self4))))"

section \<open>Sequences of calls\<close>





section \<open>Connected objects\<close>

text \<open>
  An object connected over the LAN whose socket will receive the fragments \<open>fs\<close>, and an
  object connected over GPIB whose resource will receive the messages \<open>ms\<close>; nothing has been
  written, read or printed yet.
\<close>

definition lan_bosa :: "bytes list \<Rightarrow> ending \<Rightarrow> bosa" where
  "lan_bosa fs e =
     \<lparr>interfaceType = str ''LAN'',
      instrument = Some (Socket \<lparr>frags = fs, at_end = e, sent = [], send_fault = False,
                                recv_log = [], sock_closed = False, sock_close_fault = False\<rparr>),
      printed = [], history = []\<rparr>"

definition gpib_bosa :: "bytes list \<Rightarrow> bosa" where
  "gpib_bosa ms =
     \<lparr>interfaceType = str ''GPIB'',
      instrument = Some (Visa \<lparr>inbox = ms, written = [], write_termination = CRLF,
                              write_fault = False, visa_closed = False, visa_close_fault = False\<rparr>),
      printed = [], history = []\<rparr>"

text \<open>The bytes of an ASCII string.\<close>

definition ascii :: "string \<Rightarrow> bytes" where
  "ascii cs = map of_char cs"

section \<open>What a caller observes\<close>

text \<open>
  \<open>wire\<close> are the byte strings put on the channel so far, \<open>wire_fault\<close> says that the channel
  refuses a write, and \<open>encode_for\<close> is the encoding the channel applies to a command: UTF-8
  by the driver on a socket, ASCII by the library on a resource. Of the result of a method,
  \<open>returned\<close> keeps the value or the exception, \<open>outcome\<close> keeps in addition the lines
  printed and the wire.
\<close>

definition wire :: "bosa \<Rightarrow> bytes list" where
  "wire self =
     (case instrument self of
        None \<Rightarrow> []
      | Some (Socket s) \<Rightarrow> sent s
      | Some (Visa v) \<Rightarrow> written v)"



definition returned :: "(error + 'a \<times> bosa) option \<Rightarrow> (error + 'a) option" where
  "returned r = map_option (map_sum id fst) r"

definition outcome :: "(error + 'a \<times> bosa) option \<Rightarrow> (error + 'a \<times> pystr list \<times> bytes list) option" where
  "outcome r = map_option (map_sum id (\<lambda>(x, self). (x, printed self, wire self))) r"

section \<open>Properties of the binary trace read\<close>

lemma deliver_concat: "deliver n fs = (d, rest) \<Longrightarrow> d @ concat rest = concat fs"
  by (induction fs) (auto split: if_splits)

lemma deliver_length: "deliver n fs = (d, rest) \<Longrightarrow> length d \<le> n"
  by (induction fs) (auto split: if_splits)

lemma deliver_nonempty: "0 < n \<Longrightarrow> concat fs \<noteq> [] \<Longrightarrow> fst (deliver n fs) \<noteq> []"
  by (induction fs) (auto split: if_splits)

lemma deliver_empty: "concat fs = [] \<Longrightarrow> deliver n fs = ([], [])"
  by (induction fs) (auto split: if_splits)

lemma recv_data:
  assumes "0 < k" "\<not> sock_closed s" "concat (frags s) \<noteq> []"
  shows "\<exists>d rest. recv s k = Inr (d, s\<lparr>frags := rest, recv_log := recv_log s @ [(k, d)]\<rparr>)
           \<and> d \<noteq> [] \<and> length d \<le> nat k \<and> d @ concat rest = concat (frags s)"
proof -
  obtain d rest where dr: "deliver (nat k) (frags s) = (d, rest)"
    by (cases "deliver (nat k) (frags s)")
  have ne: "d \<noteq> []"
    using deliver_nonempty [of "nat k" "frags s"] assms dr by simp
  have "recv s k = Inr (d, s\<lparr>frags := rest, recv_log := recv_log s @ [(k, d)]\<rparr>)"
    using assms dr ne by (simp add: recv_def)
  then show ?thesis
    using ne deliver_length [OF dr] deliver_concat [OF dr] by blast
qed

lemma recv_trace_enough:
  "\<not> sock_closed s \<Longrightarrow> 0 \<le> m \<Longrightarrow> nat m \<le> length (concat (frags s)) \<Longrightarrow>
   \<exists>rest log. recv_trace s m acc =
       Some (Inr (acc @ take (nat m) (concat (frags s)), s\<lparr>frags := rest, recv_log := recv_log s @ log\<rparr>))
     \<and> concat rest = drop (nat m) (concat (frags s))
     \<and> concat (map snd log) = take (nat m) (concat (frags s))
     \<and> (\<forall>i<length log. fst (log ! i) = min 19200 (m - int (length (concat (map snd (take i log))))))"
proof (induction "length (concat (frags s))" arbitrary: s m acc rule: less_induct)
  case less
  show ?case
  proof (cases "m = 0")
    case True
    have "recv_trace s m acc = Some (Inr (acc, s\<lparr>frags := frags s, recv_log := recv_log s @ [(0, [])]\<rparr>))"
      using True by (subst recv_trace.simps) (simp add: recv_def)
    then show ?thesis using True
      by (intro exI [of _ "frags s"] exI [of _ "[(0, [])]"]) simp
  next
    case False
    define k where "k = (if m < 19200 then m else 19200)"
    have kpos: "0 < k" and kle: "k \<le> m" and kmin: "k = min 19200 m"
      using False less.prems by (auto simp: k_def)
    have "0 < length (concat (frags s))"
      using False less.prems by linarith
    then have ne: "concat (frags s) \<noteq> []"
      by (simp del: length_concat)
    from recv_data [OF kpos less.prems(1) ne]
    obtain d rest where
      r: "recv s k = Inr (d, s\<lparr>frags := rest, recv_log := recv_log s @ [(k, d)]\<rparr>)"
      and dne: "d \<noteq> []" and dlen: "length d \<le> nat k" and dcat: "d @ concat rest = concat (frags s)"
      by blast
    let ?s1 = "s\<lparr>frags := rest, recv_log := recv_log s @ [(k, d)]\<rparr>"
    have unfold: "recv_trace s m acc =
        (if m - int (length d) = 0 then Some (Inr (acc @ d, ?s1))
         else recv_trace ?s1 (m - int (length d)) (acc @ d))"
    proof -
      have sel: "(if m < 19200 then recv s m else recv s 19200) = Inr (d, ?s1)"
        using r by (simp add: k_def split: if_splits)
      show ?thesis
        by (subst recv_trace.simps, subst sel) simp
    qed
    show ?thesis
    proof (cases "m - int (length d) = 0")
      case True
      then have dm: "length d = nat m" by simp
      have tk: "take (nat m) (concat (frags s)) = d"
        using dcat [symmetric] dm by simp
      have dr: "drop (nat m) (concat (frags s)) = concat rest"
        using dcat [symmetric] dm by simp
      have "recv_trace s m acc = Some (Inr (acc @ d, ?s1))"
        using unfold True by simp
      then show ?thesis using tk dr kmin
        by (intro exI [of _ rest] exI [of _ "[(k, d)]"]) simp
    next
      case False
      let ?m1 = "m - int (length d)"
      have m1: "0 \<le> ?m1" using dlen kle kpos by (simp add: nat_le_iff)
      have lt: "length (concat (frags ?s1)) < length (concat (frags s))"
        using dcat [symmetric] dne by simp
      have enough: "nat ?m1 \<le> length (concat (frags ?s1))"
        using dcat [symmetric] less.prems by simp
      have cl: "\<not> sock_closed ?s1" using less.prems by simp
      from less.hyps [OF lt cl m1 enough, of "acc @ d"]
      obtain rest1 log1 where
        ih: "recv_trace ?s1 ?m1 (acc @ d) =
               Some (Inr ((acc @ d) @ take (nat ?m1) (concat (frags ?s1)),
                          ?s1\<lparr>frags := rest1, recv_log := recv_log ?s1 @ log1\<rparr>))"
        and c1: "concat rest1 = drop (nat ?m1) (concat (frags ?s1))"
        and c2: "concat (map snd log1) = take (nat ?m1) (concat (frags ?s1))"
        and c3: "\<forall>i<length log1. fst (log1 ! i) = min 19200 (?m1 - int (length (concat (map snd (take i log1)))))"
        by blast
      have nm: "nat m = length d + nat ?m1" using m1 by linarith
      have tk: "take (nat m) (concat (frags s)) = d @ take (nat ?m1) (concat rest)"
        unfolding nm dcat [symmetric] by simp
      have dr: "drop (nat m) (concat (frags s)) = drop (nat ?m1) (concat rest)"
        unfolding nm dcat [symmetric] by simp
      have res: "recv_trace s m acc =
          Some (Inr (acc @ take (nat m) (concat (frags s)),
                     s\<lparr>frags := rest1, recv_log := recv_log s @ ((k, d) # log1)\<rparr>))"
        using unfold False ih tk by simp
      have bound: "\<forall>i<length ((k, d) # log1).
          fst (((k, d) # log1) ! i) = min 19200 (m - int (length (concat (map snd (take i ((k, d) # log1))))))"
      proof (intro allI impI)
        fix i assume "i < length ((k, d) # log1)"
        then show "fst (((k, d) # log1) ! i) = min 19200 (m - int (length (concat (map snd (take i ((k, d) # log1))))))"
          using c3 kmin by (cases i) (simp_all add: algebra_simps)
      qed
      show ?thesis
        apply (intro exI [of _ rest1] exI [of _ "(k, d) # log1"] conjI)
           apply (rule res)
        using c1 dr apply simp
        using c2 tk apply simp
        by (rule bound)
    qed
  qed
qed


lemma fill_trace_snoc:
  "fill_trace u b (xs @ [x]) T =
     (case fill_trace u b xs T of Inl e \<Rightarrow> Inl e | Inr T' \<Rightarrow> fill_trace u b [x] T')"
  by (induction xs arbitrary: T) (auto split: sum.splits simp: Let_def)

lemma slice_length: "j \<le> length b \<Longrightarrow> length (slice b i j) = j - i"
  by (simp add: slice_def)

lemma slice_take: "j \<le> n \<Longrightarrow> slice (take n b) i j = slice b i j"
  by (simp add: slice_def drop_take min_def)

lemma fill_trace_one:
  assumes "x < length T" "x * 16 + 16 \<le> length b"
  shows "fill_trace u b [x] T =
     Inr (T[x := (Tuple1 (u (slice b (x * 16) (x * 16 + 8))),
                  Tuple1 (u (slice b (x * 16 + 8) ((x + 1) * 16))))])"
proof -
  have l1: "length (slice b (x * 16) (x * 16 + 8)) = 8"
    using assms(2) by (simp add: slice_def)
  have l2: "length (slice b (x * 16 + 8) ((x + 1) * 16)) = 8"
    using assms(2) by (simp add: slice_def)
  have l3: "length (slice b (x * 16 + 8) (16 + x * 16)) = 8"
    using l2 by (simp add: add.commute)
  show ?thesis
    using assms(1) by (simp add: struct_unpack_d_def l1 l3 Let_def)
qed

lemma fill_trace_upt:
  "k \<le> length T \<Longrightarrow> k * 16 \<le> length b \<Longrightarrow>
   fill_trace u b [0..<k] T =
     Inr (map (\<lambda>i. (Tuple1 (u (slice b (i * 16) (i * 16 + 8))),
                     Tuple1 (u (slice b (i * 16 + 8) ((i + 1) * 16))))) [0..<k] @ drop k T)"
proof (induction k)
  case 0
  then show ?case by simp
next
  case (Suc k)
  let ?row = "\<lambda>i. (Tuple1 (u (slice b (i * 16) (i * 16 + 8))),
                     Tuple1 (u (slice b (i * 16 + 8) ((i + 1) * 16))))"
  let ?T = "map ?row [0..<k] @ drop k T"
  have ih: "fill_trace u b [0..<k] T = Inr ?T"
    using Suc by simp
  have kl: "k < length ?T" using Suc.prems by simp
  have one: "fill_trace u b [k] ?T = Inr (?T[k := ?row k])"
    using fill_trace_one [OF kl, of b u] Suc.prems by simp
  have dk: "drop k T = T ! k # drop (Suc k) T"
    using Suc.prems by (simp add: Cons_nth_drop_Suc)
  have upd: "?T[k := ?row k] = map ?row [0..<Suc k] @ drop (Suc k) T"
    by (simp add: list_update_append dk)
  have "fill_trace u b [0..<Suc k] T = fill_trace u b [k] ?T"
    using ih by (simp add: fill_trace_snoc)
  then show ?case using one upd by simp
qed

lemma decode_trace_ok:
  "NumPoints * 16 \<le> length b \<Longrightarrow>
   decode_trace u b NumPoints =
     Inr (map (\<lambda>i. (Tuple1 (u (slice b (i * 16) (i * 16 + 8))),
                     Tuple1 (u (slice b (i * 16 + 8) ((i + 1) * 16))))) [0..<NumPoints])"
  using fill_trace_upt [of NumPoints "replicate NumPoints (Zero, Zero)" b u]
  by (simp add: decode_trace_def)

lemma decode_trace_take:
  assumes "NumPoints * 16 \<le> length b"
  shows "decode_trace u (take (NumPoints * 16) b) NumPoints =
     Inr (map (\<lambda>i. (Tuple1 (u (slice b (i * 16) (i * 16 + 8))),
                     Tuple1 (u (slice b (i * 16 + 8) ((i + 1) * 16))))) [0..<NumPoints])"
proof -
  have "decode_trace u (take (NumPoints * 16) b) NumPoints =
     Inr (map (\<lambda>i. (Tuple1 (u (slice (take (NumPoints * 16) b) (i * 16) (i * 16 + 8))),
                     Tuple1 (u (slice (take (NumPoints * 16) b) (i * 16 + 8) ((i + 1) * 16))))) [0..<NumPoints])"
    using assms by (intro decode_trace_ok) simp
  moreover have "\<And>i. i < NumPoints \<Longrightarrow>
      slice (take (NumPoints * 16) b) (i * 16) (i * 16 + 8) = slice b (i * 16) (i * 16 + 8)"
    by (rule slice_take) simp
  moreover have "\<And>i. i < NumPoints \<Longrightarrow>
      slice (take (NumPoints * 16) b) (i * 16 + 8) ((i + 1) * 16) = slice b (i * 16 + 8) ((i + 1) * 16)"
    by (rule slice_take) simp
  ultimately show ?thesis by (simp cong: map_cong)
qed

lemma fill_trace_length: "fill_trace u b xs T = Inr T' \<Longrightarrow> length T' = length T"
  by (induction xs arbitrary: T) (auto split: sum.splits simp: Let_def)

lemma decode_trace_length: "decode_trace u b NumPoints = Inr T \<Longrightarrow> length T = NumPoints"
  by (auto simp: decode_trace_def dest: fill_trace_length)



lemma recv_eof:
  assumes "0 < k" "\<not> sock_closed s" "concat (frags s) = []" "at_end s = PeerClosed"
  shows "recv s k = Inr ([], s\<lparr>frags := [], recv_log := recv_log s @ [(k, [])]\<rparr>)"
  using assms by (simp add: recv_def deliver_empty)

lemma recv_trace_starved_aux:
  assumes "recv_trace s0 m0 acc0 = Some y0"
  shows "\<not> (\<not> sock_closed s0 \<and> at_end s0 = PeerClosed \<and> int (length (concat (frags s0))) < m0)"
proof (rule recv_trace.raw_induct
    [where P = "\<lambda>s m acc y. \<not> (\<not> sock_closed s \<and> at_end s = PeerClosed \<and> int (length (concat (frags s))) < m)",
      OF _ assms], goal_cases)
  case (1 loop s m acc y)
  show ?case
  proof (rule notI)
    assume inv: "\<not> sock_closed s \<and> at_end s = PeerClosed \<and> int (length (concat (frags s))) < m"
    define k where "k = (if m < 19200 then m else 19200)"
    have kpos: "0 < k" using inv by (auto simp: k_def)
    have sel: "(if m < 19200 then recv s m else recv s 19200) = recv s k"
      by (simp add: k_def)
    show False
    proof (cases "concat (frags s) = []")
      case True
      let ?s1 = "s\<lparr>frags := [], recv_log := recv_log s @ [(k, [])]\<rparr>"
      have r: "recv s k = Inr ([], ?s1)"
        using recv_eof [OF kpos _ True] inv by simp
      have "loop ?s1 m acc = Some y"
        using 1(2) inv kpos unfolding sel r by simp
      from 1(1) [OF this] inv show False by simp
    next
      case False
      from recv_data [OF kpos _ False] inv
      obtain d rest where
        r: "recv s k = Inr (d, s\<lparr>frags := rest, recv_log := recv_log s @ [(k, d)]\<rparr>)"
        and dcat: "d @ concat rest = concat (frags s)"
        by blast
      let ?s1 = "s\<lparr>frags := rest, recv_log := recv_log s @ [(k, d)]\<rparr>"
      have len: "length (concat (frags s)) = length d + length (concat rest)"
        unfolding dcat [symmetric] by simp
      have short: "int (length d) < m" using inv len by linarith
      have "loop ?s1 (m - int (length d)) (acc @ d) = Some y"
        using 1(2) short unfolding sel r by simp
      from 1(1) [OF this] inv len show False by simp
    qed
  qed
qed

lemma recv_trace_starved:
  assumes "\<not> sock_closed s" "at_end s = PeerClosed" "int (length (concat (frags s))) < m"
  shows "recv_trace s m acc = None"
proof (cases "recv_trace s m acc")
  case None
  then show ?thesis .
next
  case (Some y)
  from recv_trace_starved_aux [OF this] assms show ?thesis by simp
qed

lemma lan_silent:
  assumes "\<not> sock_closed s" "at_end s = Silent" "int (length (concat (frags s))) < m"
  shows "recv_trace s m acc = Some (Inl SocketTimeout)"
  using assms
proof (induction "length (concat (frags s))" arbitrary: s m acc rule: less_induct)
  case less
  define k where "k = (if m < 19200 then m else 19200)"
  have kpos: "0 < k" using less.prems by (auto simp: k_def)
  have sel: "(if m < 19200 then recv s m else recv s 19200) = recv s k"
    by (simp add: k_def)
  show ?case
  proof (cases "concat (frags s) = []")
    case True
    have "recv s k = Inl SocketTimeout"
      using kpos less.prems True by (simp add: recv_def deliver_empty)
    then show ?thesis
      by (subst recv_trace.simps, subst sel) simp
  next
    case False
    from recv_data [OF kpos less.prems(1) False]
    obtain d rest where
      r: "recv s k = Inr (d, s\<lparr>frags := rest, recv_log := recv_log s @ [(k, d)]\<rparr>)"
      and dne: "d \<noteq> []" and dcat: "d @ concat rest = concat (frags s)"
      by blast
    let ?s1 = "s\<lparr>frags := rest, recv_log := recv_log s @ [(k, d)]\<rparr>"
    have len: "length (concat (frags s)) = length d + length (concat rest)"
      unfolding dcat [symmetric] by simp
    have short: "int (length d) < m" using less.prems len by linarith
    have lt: "length (concat (frags ?s1)) < length (concat (frags s))"
      using len dne by simp
    have ih: "recv_trace ?s1 (m - int (length d)) (acc @ d) = Some (Inl SocketTimeout)"
      using less.prems len by (intro less.hyps [OF lt]) simp_all
    show ?thesis
      using short ih by (subst recv_trace.simps, subst sel, subst r) simp
  qed
qed


lemma str_lan_gpib: "str ''gpib'' \<noteq> str ''lan''"
  by (simp add: str_def)

lemma read_TRACE_REAL_lan_enough:
  assumes lan: "lower (interfaceType self) = str ''lan''"
    and ins: "instrument self = Some (Socket s)"
    and op: "\<not> sock_closed s"
    and en: "NumPoints * 16 \<le> length (concat (frags s))"
  shows "\<exists>rest log. read_TRACE_REAL unpack self a NumPoints =
      Some (Inr (map (\<lambda>i. (Tuple1 (unpack (slice (concat (frags s)) (i * 16) (i * 16 + 8))),
                            Tuple1 (unpack (slice (concat (frags s)) (i * 16 + 8) ((i + 1) * 16)))))
                   [0..<NumPoints],
                 self\<lparr>history := history self @ [CRead],
                      instrument := Some (Socket (s\<lparr>frags := rest, recv_log := recv_log s @ log\<rparr>))\<rparr>))
    \<and> concat rest = drop (NumPoints * 16) (concat (frags s))
    \<and> concat (map snd log) = take (NumPoints * 16) (concat (frags s))
    \<and> (\<forall>i<length log. fst (log ! i) =
           min 19200 (int (NumPoints * 16) - int (length (concat (map snd (take i log))))))"
proof -
  have m: "nat (int (NumPoints * 2 * 8)) = NumPoints * 16" "int (NumPoints * 2 * 8) = int (NumPoints * 16)"
    by simp_all
  have en': "nat (int (NumPoints * 2 * 8)) \<le> length (concat (frags s))"
    using en by (simp only: m)
  have nn: "0 \<le> int (NumPoints * 2 * 8)" by simp
  from recv_trace_enough [OF op nn en', of "[]"]
  obtain rest log where
    r: "recv_trace s (int (NumPoints * 2 * 8)) [] =
          Some (Inr ([] @ take (nat (int (NumPoints * 2 * 8))) (concat (frags s)),
                     s\<lparr>frags := rest, recv_log := recv_log s @ log\<rparr>))"
    and c1: "concat rest = drop (nat (int (NumPoints * 2 * 8))) (concat (frags s))"
    and c2: "concat (map snd log) = take (nat (int (NumPoints * 2 * 8))) (concat (frags s))"
    and c3: "\<forall>i<length log. fst (log ! i) =
           min 19200 (int (NumPoints * 2 * 8) - int (length (concat (map snd (take i log)))))"
    by (elim exE conjE) (rule that; assumption)
  have r': "recv_trace s (int (NumPoints * 2 * 8)) [] =
          Some (Inr (take (NumPoints * 16) (concat (frags s)),
                     s\<lparr>frags := rest, recv_log := recv_log s @ log\<rparr>))"
    using r by (simp only: m append_Nil nat_int)
  have "read_TRACE_REAL unpack self a NumPoints =
      Some (Inr (map (\<lambda>i. (Tuple1 (unpack (slice (concat (frags s)) (i * 16) (i * 16 + 8))),
                            Tuple1 (unpack (slice (concat (frags s)) (i * 16 + 8) ((i + 1) * 16)))))
                   [0..<NumPoints],
                 self\<lparr>history := history self @ [CRead],
                      instrument := Some (Socket (s\<lparr>frags := rest, recv_log := recv_log s @ log\<rparr>))\<rparr>))"
    unfolding read_TRACE_REAL_def Let_def
    by (simp only: lan ins r' decode_trace_take [OF en] simp_thms if_True option.case handle.case
        sum.case prod.case)
  moreover have "concat rest = drop (NumPoints * 16) (concat (frags s))"
    using c1 by (simp only: m nat_int)
  moreover have "concat (map snd log) = take (NumPoints * 16) (concat (frags s))"
    using c2 by (simp only: m nat_int)
  moreover have "\<forall>i<length log. fst (log ! i) =
      min 19200 (int (NumPoints * 16) - int (length (concat (map snd (take i log)))))"
    using c3 by (simp only: m)
  ultimately show ?thesis
    by (intro exI conjI)
qed

lemma read_TRACE_REAL_gpib_enough:
  assumes gp: "lower (interfaceType self) = str ''gpib''"
    and ins: "instrument self = Some (Visa v)"
    and op: "\<not> visa_closed v"
    and en: "NumPoints * 16 \<le> length (concat (inbox v))"
  shows "\<exists>self'. read_TRACE_REAL unpack self a NumPoints =
      Some (Inr (map (\<lambda>i. (Tuple1 (unpack (slice (concat (inbox v)) (i * 16) (i * 16 + 8))),
                            Tuple1 (unpack (slice (concat (inbox v)) (i * 16 + 8) ((i + 1) * 16)))))
                   [0..<NumPoints], self'))"
proof (cases "NumPoints = 0")
  case True
  have "visa_read_bytes v (int (NumPoints * 2 * 8)) = Inr ([], v)"
    using True op by (simp add: visa_read_bytes_def)
  moreover have "decode_trace unpack [] NumPoints = Inr []"
    using True by (simp add: decode_trace_def)
  ultimately show ?thesis
    using True gp ins str_lan_gpib by (simp add: read_TRACE_REAL_def)
next
  case False
  have rb: "visa_read_bytes v (int (NumPoints * 2 * 8)) =
      Inr (take (NumPoints * 16) (concat (inbox v)), v\<lparr>inbox := [drop (NumPoints * 16) (concat (inbox v))]\<rparr>)"
  proof -
    have k: "nat (16 * int NumPoints) = NumPoints * 16" by simp
    show ?thesis
      using False op en by (simp add: visa_read_bytes_def k del: length_concat)
  qed
  show ?thesis
    unfolding read_TRACE_REAL_def Let_def
    by (simp only: gp ins rb decode_trace_take [OF en] str_lan_gpib simp_thms if_True if_False
        option.case handle.case sum.case prod.case) blast
qed

text \<open>
  Claim C1. On a connected object whose instrument delivers at least \<open>NumPoints * 16\<close> bytes,
  in whatever fragments, \<^verbatim>\<open>read_TRACE_REAL\<close> returns a trace of exactly \<open>NumPoints\<close> rows,
  and row \<open>i\<close> holds the floats unpacked from the bytes at offsets \<open>[i*16, i*16+8)\<close> and
  \<open>[i*16+8, i*16+16)\<close> of what was delivered, each in the 1-tuple of \<^verbatim>\<open>struct.unpack\<close>.
\<close>

theorem read_TRACE_REAL_decodes:
  assumes "connected self" and "NumPoints * 16 \<le> length (incoming self)"
  shows "\<exists>Trace self'. read_TRACE_REAL unpack self a NumPoints = Some (Inr (Trace, self'))
     \<and> length Trace = NumPoints
     \<and> Trace = map (\<lambda>i. (Tuple1 (unpack (slice (incoming self) (i * 16) (i * 16 + 8))),
                          Tuple1 (unpack (slice (incoming self) (i * 16 + 8) ((i + 1) * 16)))))
                 [0..<NumPoints]"
proof (cases "instrument self")
  case None
  then show ?thesis using assms(1) by (simp add: connected_def)
next
  case (Some h)
  show ?thesis
  proof (cases h)
    case (Socket s)
    have inc: "incoming self = concat (frags s)"
      using Some Socket by (simp add: incoming_def)
    have lan: "lower (interfaceType self) = str ''lan''" and op: "\<not> sock_closed s"
      using assms(1) Some Socket by (simp_all add: connected_def)
    have ins: "instrument self = Some (Socket s)"
      using Some Socket by simp
    have en: "NumPoints * 16 \<le> length (concat (frags s))"
      using assms(2) unfolding inc .
    from read_TRACE_REAL_lan_enough [OF lan ins op en, where unpack = unpack and a = a]
    show ?thesis unfolding inc by auto
  next
    case (Visa v)
    have inc: "incoming self = concat (inbox v)"
      using Some Visa by (simp add: incoming_def)
    have gp: "lower (interfaceType self) = str ''gpib''" and op: "\<not> visa_closed v"
      using assms(1) Some Visa by (simp_all add: connected_def)
    have ins: "instrument self = Some (Visa v)"
      using Some Visa by simp
    have en: "NumPoints * 16 \<le> length (concat (inbox v))"
      using assms(2) unfolding inc .
    from read_TRACE_REAL_gpib_enough [OF gp ins op en, where unpack = unpack and a = a]
    show ?thesis unfolding inc by auto
  qed
qed

text \<open>
  Claim C5. On the LAN interface, with at least \<open>NumPoints * 16\<close> bytes to come, in whatever
  fragments, the receive loop of \<^verbatim>\<open>read_TRACE_REAL\<close> ends with \<open>response_byte_array\<close> equal to
  the first \<open>NumPoints * 16\<close> bytes of the stream, and the trace returned is decoded from that
  buffer. Every call of \<^verbatim>\<open>recv\<close> it made asked for at most 19200 bytes, namely for the smaller
  of 19200 and the count still missing; the chunks received are together the same first
  \<open>NumPoints * 16\<close> bytes, and the bytes after them are left in the socket.
\<close>

theorem read_TRACE_REAL_chunks:
  assumes "lower (interfaceType self) = str ''lan''"
    and "instrument self = Some (Socket s)"
    and "\<not> sock_closed s"
    and "NumPoints * 16 \<le> length (concat (frags s))"
  shows "\<exists>s' log.
       recv_trace s (int (NumPoints * 2 * 8)) [] =
         Some (Inr (take (NumPoints * 16) (concat (frags s)), s'))
     \<and> read_TRACE_REAL unpack self a NumPoints =
         Some (Inr (map (\<lambda>i. (Tuple1 (unpack (slice (take (NumPoints * 16) (concat (frags s)))
                                                  (i * 16) (i * 16 + 8))),
                               Tuple1 (unpack (slice (take (NumPoints * 16) (concat (frags s)))
                                                  (i * 16 + 8) ((i + 1) * 16)))))
                      [0..<NumPoints],
                    self\<lparr>history := history self @ [CRead], instrument := Some (Socket s')\<rparr>))
     \<and> recv_log s' = recv_log s @ log
     \<and> (\<forall>i<length log. fst (log ! i) \<le> 19200
            \<and> fst (log ! i) = min 19200 (int (NumPoints * 16) - int (length (concat (map snd (take i log))))))
     \<and> concat (map snd log) = take (NumPoints * 16) (concat (frags s))
     \<and> concat (frags s') = drop (NumPoints * 16) (concat (frags s))"
proof -
  let ?buf = "take (NumPoints * 16) (concat (frags s))"
  have m: "nat (int (NumPoints * 2 * 8)) = NumPoints * 16" "int (NumPoints * 2 * 8) = int (NumPoints * 16)"
    by simp_all
  have en': "nat (int (NumPoints * 2 * 8)) \<le> length (concat (frags s))"
    using assms(4) by (simp only: m)
  have nn: "0 \<le> int (NumPoints * 2 * 8)" by simp
  from recv_trace_enough [OF assms(3) nn en', of "[]"]
  obtain rest log where
    r: "recv_trace s (int (NumPoints * 2 * 8)) [] =
          Some (Inr ([] @ take (nat (int (NumPoints * 2 * 8))) (concat (frags s)),
                     s\<lparr>frags := rest, recv_log := recv_log s @ log\<rparr>))"
    and c1: "concat rest = drop (nat (int (NumPoints * 2 * 8))) (concat (frags s))"
    and c2: "concat (map snd log) = take (nat (int (NumPoints * 2 * 8))) (concat (frags s))"
    and c3: "\<forall>i<length log. fst (log ! i) =
           min 19200 (int (NumPoints * 2 * 8) - int (length (concat (map snd (take i log)))))"
    by (elim exE conjE) (rule that; assumption)
  let ?s' = "s\<lparr>frags := rest, recv_log := recv_log s @ log\<rparr>"
  have r': "recv_trace s (int (NumPoints * 2 * 8)) [] = Some (Inr (?buf, ?s'))"
    using r by (simp only: m append_Nil nat_int)
  have len: "NumPoints * 16 \<le> length ?buf"
    using assms(4) by (simp del: length_concat)
  have rd: "read_TRACE_REAL unpack self a NumPoints =
      Some (Inr (map (\<lambda>i. (Tuple1 (unpack (slice ?buf (i * 16) (i * 16 + 8))),
                            Tuple1 (unpack (slice ?buf (i * 16 + 8) ((i + 1) * 16)))))
                   [0..<NumPoints],
                 self\<lparr>history := history self @ [CRead], instrument := Some (Socket ?s')\<rparr>))"
    unfolding read_TRACE_REAL_def Let_def
    by (simp only: assms(1) assms(2) r' decode_trace_ok [OF len] simp_thms if_True option.case
        handle.case sum.case prod.case)
  have lg: "recv_log ?s' = recv_log s @ log" by simp
  have c4: "\<forall>i<length log. fst (log ! i) \<le> 19200
      \<and> fst (log ! i) = min 19200 (int (NumPoints * 16) - int (length (concat (map snd (take i log)))))"
    using c3 by (simp only: m) simp
  have c2': "concat (map snd log) = ?buf"
    using c2 by (simp only: m nat_int)
  have c1': "concat (frags ?s') = drop (NumPoints * 16) (concat (frags s))"
    using c1 by (simp only: m nat_int) simp
  show ?thesis
    apply (rule exI [of _ ?s'], rule exI [of _ log])
    apply (intro conjI)
         apply (rule r')
        apply (rule rd)
       apply (rule lg)
      apply (rule c4)
     apply (rule c2')
    apply (rule c1')
    done
qed


theorem read_TRACE_REAL_decodes_witness:
  "connected (lan_bosa [[1, 2, 3, 4, 5, 6, 7, 8, 9, 10], [11, 12, 13, 14, 15, 16]] Silent)
   \<and> 1 * 16 \<le> length (incoming (lan_bosa [[1, 2, 3, 4, 5, 6, 7, 8, 9, 10], [11, 12, 13, 14, 15, 16]] Silent))
   \<and> (\<exists>Trace self'.
         read_TRACE_REAL (\<lambda>b. b) (lan_bosa [[1, 2, 3, 4, 5, 6, 7, 8, 9, 10], [11, 12, 13, 14, 15, 16]] Silent)
           (str ''LAN'') 1 = Some (Inr (Trace, self'))
       \<and> length Trace = 1
       \<and> Trace = [(Tuple1 [1, 2, 3, 4, 5, 6, 7, 8], Tuple1 [9, 10, 11, 12, 13, 14, 15, 16])])"
proof -
  let ?c = "lan_bosa [[1, 2, 3, 4, 5, 6, 7, 8, 9, 10], [11, 12, 13, 14, 15, 16]] Silent"
  have h1: "connected ?c"
    by (simp add: connected_def lan_bosa_def lower_def str_def)
  have inc: "incoming ?c = [1, 2, 3, 4, 5, 6, 7, 8, 9, 10, 11, 12, 13, 14, 15, 16]"
    by (simp add: incoming_def lan_bosa_def)
  have h2: "1 * 16 \<le> length (incoming ?c)"
    by (simp add: inc)
  from read_TRACE_REAL_decodes [OF h1 h2, of "\<lambda>b. b" "str ''LAN''"]
  show ?thesis
    using h1 h2 by (simp add: inc slice_def)
qed

theorem read_TRACE_REAL_chunks_witness:
  "lower (interfaceType (lan_bosa [[1, 2, 3, 4, 5, 6, 7, 8, 9, 10], [11, 12, 13, 14, 15, 16, 17]] Silent)) = str ''lan''
   \<and> instrument (lan_bosa [[1, 2, 3, 4, 5, 6, 7, 8, 9, 10], [11, 12, 13, 14, 15, 16, 17]] Silent) =
       Some (Socket \<lparr>frags = [[1, 2, 3, 4, 5, 6, 7, 8, 9, 10], [11, 12, 13, 14, 15, 16, 17]], at_end = Silent,
                     sent = [], send_fault = False, recv_log = [], sock_closed = False,
                     sock_close_fault = False\<rparr>)
   \<and> (\<exists>s' log.
         recv_trace \<lparr>frags = [[1, 2, 3, 4, 5, 6, 7, 8, 9, 10], [11, 12, 13, 14, 15, 16, 17]], at_end = Silent,
                      sent = [], send_fault = False, recv_log = [], sock_closed = False,
                      sock_close_fault = False\<rparr> 16 [] =
           Some (Inr ([1, 2, 3, 4, 5, 6, 7, 8, 9, 10, 11, 12, 13, 14, 15, 16], s'))
       \<and> read_TRACE_REAL (\<lambda>b. b) (lan_bosa [[1, 2, 3, 4, 5, 6, 7, 8, 9, 10], [11, 12, 13, 14, 15, 16, 17]] Silent)
           (str ''LAN'') 1 =
           Some (Inr ([(Tuple1 [1, 2, 3, 4, 5, 6, 7, 8], Tuple1 [9, 10, 11, 12, 13, 14, 15, 16])],
                      (lan_bosa [] Silent)\<lparr>history := [CRead], instrument := Some (Socket s')\<rparr>))
       \<and> recv_log s' = log
       \<and> (\<forall>i<length log. fst (log ! i) \<le> 19200
              \<and> fst (log ! i) = min 19200 (16 - int (length (concat (map snd (take i log))))))
       \<and> concat (map snd log) = [1, 2, 3, 4, 5, 6, 7, 8, 9, 10, 11, 12, 13, 14, 15, 16]
       \<and> concat (frags s') = [17])"
proof -
  let ?s = "\<lparr>frags = [[1, 2, 3, 4, 5, 6, 7, 8, 9, 10], [11, 12, 13, 14, 15, 16, 17 :: byte]], at_end = Silent,
             sent = [], send_fault = False, recv_log = [], sock_closed = False,
             sock_close_fault = False\<rparr>"
  let ?c = "lan_bosa [[1, 2, 3, 4, 5, 6, 7, 8, 9, 10], [11, 12, 13, 14, 15, 16, 17]] Silent"
  have h1: "lower (interfaceType ?c) = str ''lan''"
    by (simp add: lan_bosa_def lower_def str_def)
  have h2: "instrument ?c = Some (Socket ?s)"
    by (simp add: lan_bosa_def)
  have h3: "\<not> sock_closed ?s" by simp
  have h4: "1 * 16 \<le> length (concat (frags ?s))" by simp
  have c: "?c\<lparr>history := history ?c @ [CRead]\<rparr> = (lan_bosa [] Silent)\<lparr>history := [CRead], instrument := Some (Socket ?s)\<rparr>"
    by (simp add: lan_bosa_def)
  from read_TRACE_REAL_chunks [OF h1 h2 h3 h4, of "\<lambda>b. b" "str ''LAN''"]
  show ?thesis
    using h1 h2 by (simp add: slice_def lan_bosa_def)
qed

text \<open>
  Claim C2. The driver does not do what the claim says when the peer closes the connection:
  with eight of the sixteen bytes of a one-point trace delivered and the connection then
  closed, every further \<^verbatim>\<open>recv\<close> returns \<^verbatim>\<open>b''\<close>, \<open>msgLength\<close> stays at 8 and the loop never
  leaves: \<^verbatim>\<open>read_TRACE_REAL\<close> neither raises nor returns.
\<close>

theorem read_TRACE_REAL_peer_closed_no_return:
  "read_TRACE_REAL (\<lambda>b. b) (lan_bosa [[1, 2, 3, 4, 5, 6, 7, 8]] PeerClosed) (str ''LAN'') 1 = None"
proof -
  let ?s = "\<lparr>frags = [[1, 2, 3, 4, 5, 6, 7, 8 :: byte]], at_end = PeerClosed,
             sent = [], send_fault = False, recv_log = [], sock_closed = False,
             sock_close_fault = False\<rparr>"
  have "recv_trace ?s (int (1 * 2 * 8)) [] = None"
    by (rule recv_trace_starved) simp_all
  then show ?thesis
    by (simp add: read_TRACE_REAL_def lan_bosa_def lower_def str_def)
qed

section \<open>Properties of writing and reading lines\<close>

lemma utf8_encode_append:
  "utf8_encode (xs @ ys) =
     (case utf8_encode xs of
        Inl e \<Rightarrow> Inl e
      | Inr bs \<Rightarrow> (case utf8_encode ys of Inl e \<Rightarrow> Inl e | Inr cs \<Rightarrow> Inr (bs @ cs)))"
  by (induction xs) (auto split: sum.splits)

lemma utf8_encode_CRLF: "utf8_encode CRLF = Inr [0x0D, 0x0A]"
  by (simp add: CRLF_def utf8_encode_point_def)





















lemma init_lan_bosa:
  "init (str ''LAN'') (Some (Socket \<lparr>frags = fs, at_end = e, sent = snt, send_fault = False,
       recv_log = lg, sock_closed = c, sock_close_fault = False\<rparr>)) False False =
     Some (Inr (lan_bosa fs e))"
  by (simp add: init_def connectLan_def lan_bosa_def lower_def str_def)

lemma init_gpib_bosa:
  "init (str ''GPIB'') (Some (Visa \<lparr>inbox = ms, written = w, write_termination = t,
       write_fault = False, visa_closed = c, visa_close_fault = False\<rparr>)) False False =
     Some (Inr (gpib_bosa ms))"
  by (simp add: init_def open_resource_def gpib_bosa_def lower_def str_def)



lemma unat_byte_10: "(unat (b :: byte) = 10) = (b = 10)"
proof
  assume "unat b = 10"
  then have "unat b = unat (10 :: byte)" by simp
  then show "b = 10" by (simp only: word_unat_eq_iff)
next
  assume "b = 10"
  then show "unat b = 10" by simp
qed
lemma utf8_decode_ascii: "list_all (\<lambda>b. b < 0x80) bs \<Longrightarrow> utf8_decode bs = Inr (map unat bs)"
  by (induction bs) auto

lemma recv_Inr:
  assumes "recv s n = Inr (d, s')" "0 < n"
  shows "d @ concat (frags s') = concat (frags s) \<and> length d \<le> nat n"
proof -
  obtain d0 rest where dr: "deliver (nat n) (frags s) = (d0, rest)"
    by (cases "deliver (nat n) (frags s)")
  show ?thesis
  proof (cases "d0 = []")
    case True
    have "concat (frags s) = []"
      using deliver_nonempty [of "nat n" "frags s"] dr True assms(2) by auto
    then show ?thesis
      using assms dr True by (auto simp: recv_def split: if_splits ending.splits)
  next
    case False
    then show ?thesis
      using assms dr deliver_concat [OF dr] deliver_length [OF dr]
      by (auto simp: recv_def split: if_splits)
  qed
qed

lemma no_lf_unat:
  "list_all (\<lambda>b. b < 0x80 \<and> b \<noteq> 10) (d :: bytes) \<Longrightarrow> 10 \<notin> set (map unat d)"
  by (induction d) (auto simp: unat_byte_10)

lemma ascii_of_no_lf:
  "list_all (\<lambda>b. b < 0x80 \<and> b \<noteq> 10) (d :: bytes) \<Longrightarrow> list_all (\<lambda>b. b < 0x80) d"
  by (induction d) auto

lemma read_lan_line:
  "\<not> sock_closed s \<Longrightarrow> list_all (\<lambda>b. b < 0x80 \<and> b \<noteq> 10) body \<Longrightarrow>
   concat (frags s) = body @ [10] \<Longrightarrow> 10 \<notin> set message \<Longrightarrow>
   \<exists>rest log. read_lan s message =
       Some (Inr (message @ map unat (body @ [10]), s\<lparr>frags := rest, recv_log := recv_log s @ log\<rparr>))
     \<and> concat rest = []"
proof (induction "length body" arbitrary: s body message rule: less_induct)
  case less
  have ne: "concat (frags s) \<noteq> []" using less.prems(3) by simp
  from recv_data [OF _ less.prems(1) ne, of 115200]
  obtain d rest where
    r: "recv s 115200 = Inr (d, s\<lparr>frags := rest, recv_log := recv_log s @ [(115200, d)]\<rparr>)"
    and dne: "d \<noteq> []" and dcat: "d @ concat rest = body @ [10]"
    using less.prems(3) by auto
  let ?s1 = "s\<lparr>frags := rest, recv_log := recv_log s @ [(115200, d)]\<rparr>"
  show ?case
  proof (cases "concat rest" rule: rev_cases)
    case Nil
    have d: "d = body @ [10]" using dcat unfolding Nil by simp
    have dec: "utf8_decode d = Inr (map unat d)"
      unfolding d using ascii_of_no_lf [OF less.prems(2)] by (intro utf8_decode_ascii) simp
    have "read_lan s message = Some (Inr (message @ map unat d, ?s1))"
      by (subst read_lan.simps, subst r, simp only: sum.case prod.case dec) (simp add: d)
    then show ?thesis using Nil unfolding d by (intro exI conjI)
  next
    case (snoc r' x)
    then have b: "body = d @ r'" and x: "x = 10" using dcat by simp_all
    have ld: "list_all (\<lambda>b. b < 0x80 \<and> b \<noteq> 10) d" and lr: "list_all (\<lambda>b. b < 0x80 \<and> b \<noteq> 10) r'"
      using less.prems(2) unfolding b by simp_all
    have dec: "utf8_decode d = Inr (map unat d)"
      using ascii_of_no_lf [OF ld] by (rule utf8_decode_ascii)
    have nolf: "10 \<notin> set (message @ map unat d)"
      using less.prems(4) no_lf_unat [OF ld] by simp
    have step: "read_lan s message = read_lan ?s1 (message @ map unat d)"
      using nolf by (subst read_lan.simps, subst r) (simp add: dec)
    have lt: "length r' < length body" using dne unfolding b by simp
    have cl: "\<not> sock_closed ?s1" using less.prems(1) by simp
    have fr: "concat (frags ?s1) = r' @ [10]" using snoc x by simp
    from less.hyps [OF lt cl lr fr nolf]
    obtain rest1 log1 where
      ih: "read_lan ?s1 (message @ map unat d) =
            Some (Inr ((message @ map unat d) @ map unat (r' @ [10]),
                       ?s1\<lparr>frags := rest1, recv_log := recv_log ?s1 @ log1\<rparr>))"
      and e: "concat rest1 = []"
      by blast
    have "read_lan s message =
        Some (Inr (message @ map unat (body @ [10]),
                   s\<lparr>frags := rest1, recv_log := recv_log s @ ((115200, d) # log1)\<rparr>))"
      using step ih unfolding b by simp
    then show ?thesis using e by (intro exI conjI)
  qed
qed

lemma write_cmd_lan:
  assumes "lower (interfaceType self) = str ''lan''" "instrument self = Some (Socket s)"
    "\<not> sock_closed s" "\<not> send_fault s" "utf8_encode command = Inr data"
  shows "write_cmd self command =
     Inr (self\<lparr>history := history self @ [CWrite command],
              instrument := Some (Socket (s\<lparr>sent := sent s @ [data @ [0x0D, 0x0A]]\<rparr>))\<rparr>)"
  using assms by (simp add: write_cmd_def utf8_encode_append utf8_encode_CRLF sendall_def)

lemma read_lan_line_read:
  assumes lan: "lower (interfaceType self) = str ''lan''" and ins: "instrument self = Some (Socket s)"
    and op: "\<not> sock_closed s" and body: "list_all (\<lambda>b. b < 0x80 \<and> b \<noteq> 10) body"
    and fr: "concat (frags s) = body @ [10]"
  shows "\<exists>self'. read self = Some (Inr (map unat (body @ [10]), self'))"
proof -
  from read_lan_line [OF op body fr, of "[]"]
  obtain rest log where
    "read_lan s [] = Some (Inr ([] @ map unat (body @ [10]), s\<lparr>frags := rest, recv_log := recv_log s @ log\<rparr>))"
    by auto
  then show ?thesis
    using lan ins by (simp add: read_def)
qed

lemma recv_Inr_log:
  assumes "recv s n = Inr (d, s')" "0 < n"
  shows "recv_log s' = recv_log s @ [(n, d)]"
  using assms by (auto simp: recv_def Let_def split: if_splits prod.splits ending.splits)

lemma read_lan_returns:
  assumes "read_lan s0 message0 = Some y0"
  shows "\<forall>message' s'. y0 = Inr (message', s') \<longrightarrow>
     (\<exists>log texts. log \<noteq> [] \<and> recv_log s' = recv_log s0 @ log
        \<and> list_all2 (\<lambda>e t. fst e = 115200 \<and> length (snd e) \<le> 115200 \<and> utf8_decode (snd e) = Inr t) log texts
        \<and> concat (map snd log) @ concat (frags s') = concat (frags s0)
        \<and> message' = message0 @ concat texts
        \<and> 10 \<in> set message'
        \<and> 10 \<notin> set (concat (butlast texts)))"
proof (rule read_lan.raw_induct
    [where P = "\<lambda>s message y. \<forall>message' s'. y = Inr (message', s') \<longrightarrow>
     (\<exists>log texts. log \<noteq> [] \<and> recv_log s' = recv_log s @ log
        \<and> list_all2 (\<lambda>e t. fst e = 115200 \<and> length (snd e) \<le> 115200 \<and> utf8_decode (snd e) = Inr t) log texts
        \<and> concat (map snd log) @ concat (frags s') = concat (frags s)
        \<and> message' = message @ concat texts
        \<and> 10 \<in> set message'
        \<and> 10 \<notin> set (concat (butlast texts)))", OF _ assms], goal_cases)
  case (1 loop s message y)
  show ?case
  proof (intro allI impI)
    fix message' s'
    assume y: "y = Inr (message', s')"
    obtain d s1 where r: "recv s 115200 = Inr (d, s1)"
      using 1(2) y by (cases "recv s 115200") auto
    obtain t where dec: "utf8_decode d = Inr t"
      using 1(2) y r by (cases "utf8_decode d") auto
    have rc: "d @ concat (frags s1) = concat (frags s)" and dl: "length d \<le> 115200"
      using recv_Inr [OF r] by simp_all
    have rl: "recv_log s1 = recv_log s @ [(115200, d)]"
      using recv_Inr_log [OF r] by simp
    show "\<exists>log texts. log \<noteq> [] \<and> recv_log s' = recv_log s @ log
        \<and> list_all2 (\<lambda>e t. fst e = 115200 \<and> length (snd e) \<le> 115200 \<and> utf8_decode (snd e) = Inr t) log texts
        \<and> concat (map snd log) @ concat (frags s') = concat (frags s)
        \<and> message' = message @ concat texts
        \<and> 10 \<in> set message'
        \<and> 10 \<notin> set (concat (butlast texts))"
    proof (cases "10 \<in> set (message @ t)")
      case True
      then have "message' = message @ t" "s' = s1"
        using 1(2) y r dec by simp_all
      then show ?thesis
        using True rc dl dec rl
        by (intro exI [of _ "[(115200, d)]"] exI [of _ "[t]"]) simp
    next
      case False
      then have "loop s1 (message @ t) = Some y"
        using 1(2) r dec by simp
      from 1(1) [OF this] y
      obtain log texts where c: "log \<noteq> []"
        and lg: "recv_log s' = recv_log s1 @ log"
        and l2: "list_all2 (\<lambda>e t. fst e = 115200 \<and> length (snd e) \<le> 115200 \<and> utf8_decode (snd e) = Inr t) log texts"
        and cc: "concat (map snd log) @ concat (frags s') = concat (frags s1)"
        and m: "message' = (message @ t) @ concat texts"
        and lf: "10 \<in> set message'"
        and nl: "10 \<notin> set (concat (butlast texts))"
        by blast
      have tne: "texts \<noteq> []" using c l2 by auto
      have nl': "10 \<notin> set (concat (butlast (t # texts)))"
        using nl False tne by simp
      show ?thesis
        using l2 cc m lf nl' rc dl dec lg rl
        by (intro exI [of _ "(115200, d) # log"] exI [of _ "t # texts"]) simp
    qed
  qed
qed

lemma recv_fragment:
  assumes "\<not> sock_closed s" and "frags s = c # rest" and "c \<noteq> []" and "length c \<le> 115200"
  shows "recv s 115200 = Inr (c, s\<lparr>frags := rest, recv_log := recv_log s @ [(115200, c)]\<rparr>)"
  using assms by (simp add: recv_def)

lemma read_lan_frags:
  "\<not> sock_closed s \<Longrightarrow> frags s = pre @ f # post \<Longrightarrow>
   list_all2 (\<lambda>c t. c \<noteq> [] \<and> length c \<le> 115200 \<and> utf8_decode c = Inr t) pre texts0 \<Longrightarrow>
   10 \<notin> set message \<Longrightarrow> 10 \<notin> set (concat texts0) \<Longrightarrow>
   f \<noteq> [] \<Longrightarrow> length f \<le> 115200 \<Longrightarrow> utf8_decode f = Inr t \<Longrightarrow> 10 \<in> set t \<Longrightarrow>
   read_lan s message =
     Some (Inr (message @ concat texts0 @ t,
                s\<lparr>frags := post, recv_log := recv_log s @ map (Pair 115200) (pre @ [f])\<rparr>))"
proof (induction pre arbitrary: s message texts0)
  case Nil
  have t0: "texts0 = []" using Nil.prems(3) by simp
  have fr: "frags s = f # post" using Nil.prems(2) by simp
  have r: "recv s 115200 = Inr (f, s\<lparr>frags := post, recv_log := recv_log s @ [(115200, f)]\<rparr>)"
    using recv_fragment [OF Nil.prems(1) fr Nil.prems(6) Nil.prems(7)] .
  have lf: "10 \<in> set (message @ t)" using Nil.prems(9) by simp
  show ?case
    by (subst read_lan.simps, subst r, simp only: sum.case prod.case Nil.prems(8) lf if_True t0)
       simp
next
  case (Cons c pre)
  obtain t0 ts where tx: "texts0 = t0 # ts"
    and c: "c \<noteq> []" "length c \<le> 115200" "utf8_decode c = Inr t0"
    and l2: "list_all2 (\<lambda>c t. c \<noteq> [] \<and> length c \<le> 115200 \<and> utf8_decode c = Inr t) pre ts"
    using Cons.prems(3) by (auto simp: list_all2_Cons1)
  have fr: "frags s = c # (pre @ f # post)" using Cons.prems(2) by simp
  let ?s1 = "s\<lparr>frags := pre @ f # post, recv_log := recv_log s @ [(115200, c)]\<rparr>"
  have r: "recv s 115200 = Inr (c, ?s1)"
    using recv_fragment [OF Cons.prems(1) fr c(1) c(2)] .
  have nolf: "10 \<notin> set (message @ t0)"
    using Cons.prems(4) Cons.prems(5) tx by simp
  have nots: "10 \<notin> set (concat ts)"
    using Cons.prems(5) tx by simp
  have step: "read_lan s message = read_lan ?s1 (message @ t0)"
    by (subst read_lan.simps, subst r, simp only: sum.case prod.case c(3) nolf if_False)
  have cl: "\<not> sock_closed ?s1" using Cons.prems(1) by simp
  have fr1: "frags ?s1 = pre @ f # post" by simp
  from Cons.IH [OF cl fr1 l2 nolf nots Cons.prems(6) Cons.prems(7) Cons.prems(8) Cons.prems(9)]
  have "read_lan ?s1 (message @ t0) =
     Some (Inr ((message @ t0) @ concat ts @ t,
                ?s1\<lparr>frags := post, recv_log := recv_log ?s1 @ map (Pair 115200) (pre @ [f])\<rparr>))" .
  then show ?case
    unfolding step tx by simp
qed

text \<open>
  Claim C3. On the LAN interface, whenever \<^verbatim>\<open>read\<close> returns, the calls of \<^verbatim>\<open>recv\<close> it made
  are in the log of the socket: each asked for 115200 bytes, the chunks they returned are the
  front of the stream, the text returned is those chunks decoded one by one and put together,
  the last chunk holds a line feed and the chunks before it hold none. So the loop leaves at
  the first chunk that brings a line feed and returns that chunk whole, with what follows the
  line feed in it. And when the stream arrives in fragments of at most 115200 bytes that
  decode, of which \<open>f\<close> is the first with a line feed, \<^verbatim>\<open>read\<close> does return: it makes one
  receive for each fragment up to \<open>f\<close>, returns the text of all of them and leaves the
  fragments after \<open>f\<close> in the socket; \<^verbatim>\<open>ask\<close> writes the command and returns the same text,
  so a reply that ends with CR LF comes back with its CR LF.
\<close>

theorem read_returns_whole_text:
  assumes lan: "lower (interfaceType self) = str ''lan''" and ins: "instrument self = Some (Socket s)"
  shows "(read self = Some (Inr (message, self')) \<longrightarrow>
           (\<exists>s' log texts.
              self' = self\<lparr>history := history self @ [CRead], instrument := Some (Socket s')\<rparr>
              \<and> recv_log s' = recv_log s @ log \<and> log \<noteq> []
              \<and> list_all2 (\<lambda>e t. fst e = 115200 \<and> length (snd e) \<le> 115200 \<and> utf8_decode (snd e) = Inr t)
                   log texts
              \<and> concat (map snd log) @ concat (frags s') = concat (frags s)
              \<and> message = concat texts
              \<and> 10 \<in> set (last texts)
              \<and> 10 \<notin> set (concat (butlast texts))))
       \<and> (\<not> sock_closed s \<and> frags s = pre @ f # post
          \<and> list_all2 (\<lambda>c t. c \<noteq> [] \<and> length c \<le> 115200 \<and> utf8_decode c = Inr t) pre texts0
          \<and> 10 \<notin> set (concat texts0)
          \<and> f \<noteq> [] \<and> length f \<le> 115200 \<and> utf8_decode f = Inr t \<and> 10 \<in> set t \<longrightarrow>
            read self =
              Some (Inr (concat texts0 @ t,
                         self\<lparr>history := history self @ [CRead],
                              instrument := Some (Socket (s\<lparr>frags := post,
                                recv_log := recv_log s @ map (Pair 115200) (pre @ [f])\<rparr>))\<rparr>))
            \<and> (\<not> send_fault s \<and> utf8_encode command = Inr data \<longrightarrow>
                 ask self command =
                   Some (Inr (concat texts0 @ t,
                              self\<lparr>history := history self @ [CWrite command, CRead],
                                   instrument := Some (Socket (s\<lparr>frags := post,
                                     sent := sent s @ [data @ [0x0D, 0x0A]],
                                     recv_log := recv_log s @ map (Pair 115200) (pre @ [f])\<rparr>))\<rparr>))))"
proof (intro conjI impI)
  assume rd: "read self = Some (Inr (message, self'))"
  then obtain s' where rl: "read_lan s [] = Some (Inr (message, s'))"
    and s': "self' = self\<lparr>history := history self @ [CRead], instrument := Some (Socket s')\<rparr>"
    using lan ins by (auto simp: read_def split: option.splits sum.splits)
  from read_lan_returns [OF rl]
  obtain log texts where c: "log \<noteq> []" and lg: "recv_log s' = recv_log s @ log"
    and l2: "list_all2 (\<lambda>e t. fst e = 115200 \<and> length (snd e) \<le> 115200 \<and> utf8_decode (snd e) = Inr t) log texts"
    and cc: "concat (map snd log) @ concat (frags s') = concat (frags s)"
    and m: "message = concat texts"
    and lf: "10 \<in> set message"
    and nl: "10 \<notin> set (concat (butlast texts))"
    by auto
  have tne: "texts \<noteq> []" using c l2 by auto
  have "concat texts = concat (butlast texts) @ last texts"
    using tne by (metis append_butlast_last_id concat_append concat.simps(2) concat.simps(1) append_Nil2)
  then have ll: "10 \<in> set (last texts)" using lf nl m by auto
  show "\<exists>s' log texts.
              self' = self\<lparr>history := history self @ [CRead], instrument := Some (Socket s')\<rparr>
              \<and> recv_log s' = recv_log s @ log \<and> log \<noteq> []
              \<and> list_all2 (\<lambda>e t. fst e = 115200 \<and> length (snd e) \<le> 115200 \<and> utf8_decode (snd e) = Inr t)
                   log texts
              \<and> concat (map snd log) @ concat (frags s') = concat (frags s)
              \<and> message = concat texts
              \<and> 10 \<in> set (last texts)
              \<and> 10 \<notin> set (concat (butlast texts))"
    using s' lg c l2 cc m ll nl by (intro exI conjI)
next
  assume h: "\<not> sock_closed s \<and> frags s = pre @ f # post
          \<and> list_all2 (\<lambda>c t. c \<noteq> [] \<and> length c \<le> 115200 \<and> utf8_decode c = Inr t) pre texts0
          \<and> 10 \<notin> set (concat texts0)
          \<and> f \<noteq> [] \<and> length f \<le> 115200 \<and> utf8_decode f = Inr t \<and> 10 \<in> set t"
  have "read_lan s [] =
     Some (Inr ([] @ concat texts0 @ t,
                s\<lparr>frags := post, recv_log := recv_log s @ map (Pair 115200) (pre @ [f])\<rparr>))"
    using h by (intro read_lan_frags) simp_all
  then show "read self =
              Some (Inr (concat texts0 @ t,
                         self\<lparr>history := history self @ [CRead],
                              instrument := Some (Socket (s\<lparr>frags := post,
                                recv_log := recv_log s @ map (Pair 115200) (pre @ [f])\<rparr>))\<rparr>))"
    using lan ins by (simp add: read_def)
next
  assume h: "\<not> sock_closed s \<and> frags s = pre @ f # post
          \<and> list_all2 (\<lambda>c t. c \<noteq> [] \<and> length c \<le> 115200 \<and> utf8_decode c = Inr t) pre texts0
          \<and> 10 \<notin> set (concat texts0)
          \<and> f \<noteq> [] \<and> length f \<le> 115200 \<and> utf8_decode f = Inr t \<and> 10 \<in> set t"
    and w: "\<not> send_fault s \<and> utf8_encode command = Inr data"
  let ?s1 = "s\<lparr>sent := sent s @ [data @ [0x0D, 0x0A]]\<rparr>"
  let ?self1 = "self\<lparr>history := history self @ [CWrite command], instrument := Some (Socket ?s1)\<rparr>"
  have wr: "write_cmd self command = Inr ?self1"
    using h w by (intro write_cmd_lan [OF lan ins]) simp_all
  have lan1: "lower (interfaceType ?self1) = str ''lan''" using lan by simp
  have "read_lan ?s1 [] =
     Some (Inr ([] @ concat texts0 @ t,
                ?s1\<lparr>frags := post, recv_log := recv_log ?s1 @ map (Pair 115200) (pre @ [f])\<rparr>))"
    using h by (intro read_lan_frags) simp_all
  then have "read ?self1 =
      Some (Inr (concat texts0 @ t,
                 ?self1\<lparr>history := history ?self1 @ [CRead],
                         instrument := Some (Socket (?s1\<lparr>frags := post,
                           recv_log := recv_log ?s1 @ map (Pair 115200) (pre @ [f])\<rparr>))\<rparr>))"
    using lan1 by (simp add: read_def)
  then show "ask self command =
                   Some (Inr (concat texts0 @ t,
                              self\<lparr>history := history self @ [CWrite command, CRead],
                                   instrument := Some (Socket (s\<lparr>frags := post,
                                     sent := sent s @ [data @ [0x0D, 0x0A]],
                                     recv_log := recv_log s @ map (Pair 115200) (pre @ [f])\<rparr>))\<rparr>))"
    using wr by (simp add: ask_def)
qed

text \<open>
  Claim C4, as the driver has it. When the stream is ASCII and its only line feed is its last
  byte, \<^verbatim>\<open>read\<close> on the LAN interface returns the whole stream as text, in whatever fragments
  it arrives: one byte at a time and in a single fragment give the same text.
\<close>

theorem read_fragmentation_independent:
  assumes "lower (interfaceType self) = str ''lan''" and "instrument self = Some (Socket s)"
    and "\<not> sock_closed s" and "list_all (\<lambda>b. b < 0x80 \<and> b \<noteq> 10) body"
    and "concat (frags s) = body @ [10]"
  shows "returned (read self) = Some (Inr (map unat (body @ [10])))"
proof -
  from read_lan_line_read [OF assms]
  obtain self' where "read self = Some (Inr (map unat (body @ [10]), self'))" ..
  then show ?thesis by (simp add: returned_def)
qed

theorem read_returns_whole_text_witness:
  "lower (interfaceType (lan_bosa [[79, 75], [13, 10, 88], [89]] Silent)) = str ''lan''
   \<and> list_all2 (\<lambda>c t. c \<noteq> [] \<and> length c \<le> 115200 \<and> utf8_decode c = Inr t) [[79, 75]] [[79, 75]]
   \<and> utf8_decode [13, 10, 88] = Inr [13, 10, 88]
   \<and> read (lan_bosa [[79, 75], [13, 10, 88], [89]] Silent) =
       Some (Inr ([79, 75, 13, 10, 88],
         (lan_bosa [] Silent)\<lparr>history := [CRead],
            instrument := Some (Socket \<lparr>frags = [[89]], at_end = Silent, sent = [], send_fault = False,
              recv_log = [(115200, [79, 75]), (115200, [13, 10, 88])], sock_closed = False,
              sock_close_fault = False\<rparr>)\<rparr>))
   \<and> (\<exists>log texts. log = [(115200 :: int, [79, 75 :: byte]), (115200, [13, 10, 88])]
         \<and> list_all2 (\<lambda>e t. fst e = 115200 \<and> length (snd e) \<le> 115200 \<and> utf8_decode (snd e) = Inr t)
              log texts
         \<and> concat (map snd log) @ [89] = [79, 75, 13, 10, 88, 89]
         \<and> [79, 75, 13, 10, 88] = concat texts
         \<and> 10 \<in> set (last texts)
         \<and> 10 \<notin> set (concat (butlast texts)))
   \<and> utf8_encode (str ''*IDN?'') = Inr (ascii ''*IDN?'')
   \<and> ask (lan_bosa [ascii ''ACME,BOSA400,'', ascii ''001,1.0'' @ [13, 10]] Silent) (str ''*IDN?'') =
       Some (Inr (str ''ACME,BOSA400,001,1.0'' @ [13, 10],
         (lan_bosa [] Silent)\<lparr>history := [CWrite (str ''*IDN?''), CRead],
            instrument := Some (Socket \<lparr>frags = [], at_end = Silent, sent = [ascii ''*IDN?'' @ [13, 10]],
              send_fault = False,
              recv_log = [(115200, ascii ''ACME,BOSA400,''), (115200, ascii ''001,1.0'' @ [13, 10])],
              sock_closed = False, sock_close_fault = False\<rparr>)\<rparr>))"
proof -
  let ?c1 = "lan_bosa [[79, 75], [13, 10, 88], [89]] Silent"
  let ?s1 = "\<lparr>frags = [[79, 75], [13, 10, 88], [89 :: byte]], at_end = Silent, sent = [], send_fault = False,
              recv_log = [], sock_closed = False, sock_close_fault = False\<rparr>"
  let ?s1' = "\<lparr>frags = [[89 :: byte]], at_end = Silent, sent = [], send_fault = False,
              recv_log = [(115200, [79, 75]), (115200, [13, 10, 88])], sock_closed = False,
              sock_close_fault = False\<rparr>"
  let ?c1' = "(lan_bosa [] Silent)\<lparr>history := [CRead], instrument := Some (Socket ?s1')\<rparr>"
  let ?c2 = "lan_bosa [ascii ''ACME,BOSA400,'', ascii ''001,1.0'' @ [13, 10]] Silent"
  let ?s2 = "\<lparr>frags = [ascii ''ACME,BOSA400,'', ascii ''001,1.0'' @ [13, 10]], at_end = Silent, sent = [],
              send_fault = False, recv_log = [], sock_closed = False, sock_close_fault = False\<rparr>"
  have l1: "lower (interfaceType ?c1) = str ''lan''"
    by (simp add: lan_bosa_def lower_def str_def)
  have i1: "instrument ?c1 = Some (Socket ?s1)"
    by (simp add: lan_bosa_def)
  have d0: "list_all2 (\<lambda>c t. c \<noteq> [] \<and> length c \<le> 115200 \<and> utf8_decode c = Inr t) [[79, 75]] [[79, 75]]"
    by simp
  have d1: "utf8_decode [13, 10, 88] = Inr [13, 10, 88]"
    by simp
  have R: "read ?c1 = Some (Inr ([79, 75, 13, 10, 88], ?c1'))"
    using read_returns_whole_text [OF l1 i1, of _ _ "[[79, 75]]" "[13, 10, 88]" "[[89]]" "[[79, 75]]"
        "[13, 10, 88]"] d0
    by (simp add: lan_bosa_def)
  have first: "\<exists>log texts. log = [(115200 :: int, [79, 75 :: byte]), (115200, [13, 10, 88])]
         \<and> list_all2 (\<lambda>e t. fst e = 115200 \<and> length (snd e) \<le> 115200 \<and> utf8_decode (snd e) = Inr t)
              log texts
         \<and> concat (map snd log) @ [89] = [79, 75, 13, 10, 88, 89]
         \<and> [79, 75, 13, 10, 88] = concat texts
         \<and> 10 \<in> set (last texts)
         \<and> 10 \<notin> set (concat (butlast texts))"
  proof -
    from read_returns_whole_text [OF l1 i1, of "[79, 75, 13, 10, 88]" ?c1' "[]" "[]" "[]" "[]" "[]" "[]" "[]",
        THEN conjunct1] R
    obtain s' log texts where
      x: "?c1' = ?c1\<lparr>history := history ?c1 @ [CRead], instrument := Some (Socket s')\<rparr>"
      and lg: "recv_log s' = recv_log ?s1 @ log"
      and l2: "list_all2 (\<lambda>e t. fst e = 115200 \<and> length (snd e) \<le> 115200 \<and> utf8_decode (snd e) = Inr t)
                 log texts"
      and cc: "concat (map snd log) @ concat (frags s') = concat (frags ?s1)"
      and m: "[79, 75, 13, 10, 88] = concat texts"
      and ll: "10 \<in> set (last texts)"
      and nl: "10 \<notin> set (concat (butlast texts))"
      by blast
    have s': "s' = ?s1'" using x by (simp add: lan_bosa_def)
    have "log = [(115200 :: int, [79, 75 :: byte]), (115200, [13, 10, 88])]"
      using lg unfolding s' by simp
    moreover have "concat (map snd log) @ [89] = [79, 75, 13, 10, 88, 89]"
      using cc unfolding s' by simp
    ultimately show ?thesis
      using l2 m ll nl by blast
  qed
  have l2: "lower (interfaceType ?c2) = str ''lan''"
    by (simp add: lan_bosa_def lower_def str_def)
  have i2: "instrument ?c2 = Some (Socket ?s2)"
    by (simp add: lan_bosa_def)
  have e: "utf8_encode (str ''*IDN?'') = Inr (ascii ''*IDN?'')"
    by (simp add: str_def ascii_def utf8_encode_point_def)
  have second: "ask ?c2 (str ''*IDN?'') =
       Some (Inr (str ''ACME,BOSA400,001,1.0'' @ [13, 10],
         (lan_bosa [] Silent)\<lparr>history := [CWrite (str ''*IDN?''), CRead],
            instrument := Some (Socket \<lparr>frags = [], at_end = Silent, sent = [ascii ''*IDN?'' @ [13, 10]],
              send_fault = False,
              recv_log = [(115200, ascii ''ACME,BOSA400,''), (115200, ascii ''001,1.0'' @ [13, 10])],
              sock_closed = False, sock_close_fault = False\<rparr>)\<rparr>))"
    using read_returns_whole_text [OF l2 i2, of _ _ "[ascii ''ACME,BOSA400,'']" "ascii ''001,1.0'' @ [13, 10]" "[]"
        "[str ''ACME,BOSA400,'']" "str ''001,1.0'' @ [13, 10]" "str ''*IDN?''" "ascii ''*IDN?''"] e
    by (simp add: lan_bosa_def ascii_def str_def)
  show ?thesis
    using l1 d0 d1 R first e second by blast
qed

theorem read_fragmentation_independent_witness:
  "lower (interfaceType (lan_bosa [[79, 75, 13, 10]] Silent)) = str ''lan''
   \<and> lower (interfaceType (lan_bosa [[79], [75], [13], [10]] Silent)) = str ''lan''
   \<and> returned (read (lan_bosa [[79, 75, 13, 10]] Silent)) = Some (Inr [79, 75, 13, 10])
   \<and> returned (read (lan_bosa [[79], [75], [13], [10]] Silent)) = Some (Inr [79, 75, 13, 10])"
proof -
  let ?s1 = "\<lparr>frags = [[79, 75, 13, 10 :: byte]], at_end = Silent, sent = [], send_fault = False,
              recv_log = [], sock_closed = False, sock_close_fault = False\<rparr>"
  let ?s2 = "\<lparr>frags = [[79], [75], [13], [10 :: byte]], at_end = Silent, sent = [], send_fault = False,
              recv_log = [], sock_closed = False, sock_close_fault = False\<rparr>"
  have l1: "lower (interfaceType (lan_bosa [[79, 75, 13, 10]] Silent)) = str ''lan''"
    and l2: "lower (interfaceType (lan_bosa [[79], [75], [13], [10]] Silent)) = str ''lan''"
    by (simp_all add: lan_bosa_def lower_def str_def)
  have i1: "instrument (lan_bosa [[79, 75, 13, 10]] Silent) = Some (Socket ?s1)"
    and i2: "instrument (lan_bosa [[79], [75], [13], [10]] Silent) = Some (Socket ?s2)"
    by (simp_all add: lan_bosa_def)
  have "returned (read (lan_bosa [[79, 75, 13, 10]] Silent)) = Some (Inr (map unat ([79, 75, 13] @ [10 :: byte])))"
    by (rule read_fragmentation_independent [OF l1 i1]) simp_all
  moreover have "returned (read (lan_bosa [[79], [75], [13], [10]] Silent)) =
      Some (Inr (map unat ([79, 75, 13] @ [10 :: byte])))"
    by (rule read_fragmentation_independent [OF l2 i2]) simp_all
  ultimately show ?thesis using l1 l2 by simp
qed
text \<open>
  Claim C4 as stated fails. The three bytes of \<^verbatim>\<open>"\xc3\xa9\n"\<close> decode to two characters when
  they arrive together, and raise \<^verbatim>\<open>UnicodeDecodeError\<close> when they arrive one at a time; the
  four bytes of \<^verbatim>\<open>"A\nB\n"\<close> are returned whole when they arrive together, and only
  \<^verbatim>\<open>"A\n"\<close> is returned when they arrive one at a time.
\<close>

theorem read_fragmentation_counterexample:
  "returned (read (lan_bosa [[195, 169, 10]] Silent)) \<noteq>
     returned (read (lan_bosa [[195], [169], [10]] Silent))
   \<and> returned (read (lan_bosa [[65, 10, 66, 10]] Silent)) \<noteq>
     returned (read (lan_bosa [[65], [10], [66], [10]] Silent))"
proof -
  have a: "returned (read (lan_bosa [[195, 169, 10]] Silent)) = Some (Inr [233, 10])"
    apply (simp add: returned_def read_def lan_bosa_def lower_def str_def)
    apply (subst read_lan.simps)
    apply (simp add: recv_def cont_def)
    done
  have b: "returned (read (lan_bosa [[195], [169], [10]] Silent)) = Some (Inl UnicodeDecodeError)"
    apply (simp add: returned_def read_def lan_bosa_def lower_def str_def)
    apply (subst read_lan.simps)
    apply (simp add: recv_def cont_def)
    done
  have c: "returned (read (lan_bosa [[65, 10, 66, 10]] Silent)) = Some (Inr [65, 10, 66, 10])"
    apply (simp add: returned_def read_def lan_bosa_def lower_def str_def)
    apply (subst read_lan.simps)
    apply (simp add: recv_def cont_def)
    done
  have d: "returned (read (lan_bosa [[65], [10], [66], [10]] Silent)) = Some (Inr [65, 10])"
    apply (simp add: returned_def read_def lan_bosa_def lower_def str_def)
    apply (subst read_lan.simps)
    apply (simp add: recv_def cont_def)
    apply (subst read_lan.simps)
    apply (simp add: recv_def cont_def)
    done
  show ?thesis unfolding a b c d by simp
qed

section \<open>Properties of the trace queries and of tearing down\<close>

lemma write_cmd_keeps_socket:
  assumes "instrument self = Some (Socket s)" "write_cmd self command = Inr self'"
  shows "\<exists>s'. instrument self' = Some (Socket s')"
  using assms
  by (auto simp: write_cmd_def Let_def split: if_splits sum.splits)

text \<open>
  Claim C10. \<^verbatim>\<open>read_TRACE_ASCII\<close> calls the list read of the bus on \<open>instrument\<close> whatever
  the interface type is. When the instrument is a socket the call raises (a socket has no
  such method), and so does \<^verbatim>\<open>ask_TRACE_ASCII\<close>; \<^verbatim>\<open>ask_TRACE_ASCII\<close> returns a value only
  when the instrument is a VISA resource.
\<close>

theorem read_TRACE_ASCII_needs_bus:
  "(instrument self = Some (Socket s) \<longrightarrow>
      read_TRACE_ASCII parse (self\<lparr>interfaceType := t\<rparr>) = Inl AttributeError
      \<and> (\<exists>e. ask_TRACE_ASCII parse (self\<lparr>interfaceType := t\<rparr>) = Inl e))
   \<and> (ask_TRACE_ASCII parse self = Inr r \<longrightarrow> (\<exists>v. instrument self = Some (Visa v)))"
proof -
  have sock: "\<exists>e. ask_TRACE_ASCII parse c = Inl e" if "instrument c = Some (Socket s0)" for c s0
  proof (cases "write_cmd c (str ''FORM ASCII'')")
    case (Inl e)
    then show ?thesis by (simp add: ask_TRACE_ASCII_def)
  next
    case (Inr c1)
    from write_cmd_keeps_socket [OF that Inr] obtain s1 where s1: "instrument c1 = Some (Socket s1)" ..
    show ?thesis
    proof (cases "write_cmd c1 (str ''TRAC?'')")
      case (Inl e)
      then show ?thesis using Inr by (simp add: ask_TRACE_ASCII_def)
    next
      case (Inr c2)
      from write_cmd_keeps_socket [OF s1 Inr] obtain s2 where "instrument c2 = Some (Socket s2)" ..
      then show ?thesis
        using Inr \<open>write_cmd c (str ''FORM ASCII'') = Inr c1\<close>
        by (simp add: ask_TRACE_ASCII_def read_TRACE_ASCII_def)
    qed
  qed
  have none: "\<exists>e. ask_TRACE_ASCII parse c = Inl e" if "instrument c = None" for c
    using that
    by (auto simp: ask_TRACE_ASCII_def write_cmd_def read_TRACE_ASCII_def Let_def split: sum.splits)
  have a: "instrument self = Some (Socket s) \<longrightarrow>
      read_TRACE_ASCII parse (self\<lparr>interfaceType := t\<rparr>) = Inl AttributeError
      \<and> (\<exists>e. ask_TRACE_ASCII parse (self\<lparr>interfaceType := t\<rparr>) = Inl e)"
    using sock [of "self\<lparr>interfaceType := t\<rparr>" s] by (simp add: read_TRACE_ASCII_def)
  have b: "ask_TRACE_ASCII parse self = Inr r \<longrightarrow> (\<exists>v. instrument self = Some (Visa v))"
  proof (cases "instrument self")
    case None
    with none [of self] show ?thesis by auto
  next
    case (Some h)
    then show ?thesis using sock [of self] by (cases h) auto
  qed
  from a b show ?thesis by blast
qed

theorem read_TRACE_ASCII_needs_bus_witness:
  "instrument (lan_bosa [[49, 44, 50, 13, 10]] Silent) =
     Some (Socket \<lparr>frags = [[49, 44, 50, 13, 10]], at_end = Silent, sent = [], send_fault = False,
                   recv_log = [], sock_closed = False, sock_close_fault = False\<rparr>)
   \<and> read_TRACE_ASCII (\<lambda>m. Inr [length m]) (lan_bosa [[49, 44, 50, 13, 10]] Silent) = Inl AttributeError
   \<and> (\<exists>e. ask_TRACE_ASCII (\<lambda>m. Inr [length m]) (lan_bosa [[49, 44, 50, 13, 10]] Silent) = Inl e)
   \<and> ask_TRACE_ASCII (\<lambda>m. Inr [length m]) (gpib_bosa [[49, 44, 50, 13, 10]]) =
       Inr ([5], (gpib_bosa [])\<lparr>history := [CWrite (str ''FORM ASCII''), CWrite (str ''TRAC?''), CRead],
                 instrument := Some (Visa \<lparr>inbox = [], written = [ascii ''FORM ASCII'' @ [13, 10], ascii ''TRAC?'' @ [13, 10]],
                     write_termination = CRLF, write_fault = False, visa_closed = False,
                     visa_close_fault = False\<rparr>)\<rparr>)
   \<and> (\<exists>v. instrument (gpib_bosa [[49, 44, 50, 13, 10]]) = Some (Visa v))"
proof -
  let ?s = "\<lparr>frags = [[49, 44, 50, 13, 10 :: byte]], at_end = Silent, sent = [], send_fault = False,
             recv_log = [], sock_closed = False, sock_close_fault = False\<rparr>"
  have i: "instrument (lan_bosa [[49, 44, 50, 13, 10]] Silent) = Some (Socket ?s)"
    by (simp add: lan_bosa_def)
  have g: "ask_TRACE_ASCII (\<lambda>m. Inr [length m]) (gpib_bosa [[49, 44, 50, 13, 10]]) =
       Inr ([5], (gpib_bosa [])\<lparr>history := [CWrite (str ''FORM ASCII''), CWrite (str ''TRAC?''), CRead],
                 instrument := Some (Visa \<lparr>inbox = [], written = [ascii ''FORM ASCII'' @ [13, 10], ascii ''TRAC?'' @ [13, 10]],
                     write_termination = CRLF, write_fault = False, visa_closed = False,
                     visa_close_fault = False\<rparr>)\<rparr>)"
    by (simp add: ask_TRACE_ASCII_def write_cmd_def read_TRACE_ASCII_def visa_read_ascii_values_def
        visa_write_def encode_ascii_def gpib_bosa_def lower_def str_def ascii_def CRLF_def Let_def)
  from read_TRACE_ASCII_needs_bus
    [of "lan_bosa [[49, 44, 50, 13, 10]] Silent" ?s "\<lambda>m. Inr [length m]" "str ''LAN''"]
    read_TRACE_ASCII_needs_bus
    [of "gpib_bosa [[49, 44, 50, 13, 10]]" ?s "\<lambda>m. Inr [length m]" "str ''GPIB''"]
  show ?thesis
    using i g by (simp add: lan_bosa_def gpib_bosa_def)
qed
lemma write_cmd_history:
  "write_cmd self command = Inr self' \<Longrightarrow> history self' = history self @ [CWrite command]"
  by (auto simp: write_cmd_def Let_def split: if_splits sum.splits option.splits handle.splits)

lemma read_history:
  "read self = Some (Inr (message, self')) \<Longrightarrow> history self' = history self @ [CRead]"
  by (auto simp: read_def Let_def split: if_splits sum.splits option.splits handle.splits)

lemma read_TRACE_REAL_history:
  "read_TRACE_REAL unpack self a NumPoints = Some (Inr (Trace, self')) \<Longrightarrow>
   history self' = history self @ [CRead]"
  by (auto simp: read_TRACE_REAL_def Let_def split: if_splits sum.splits option.splits handle.splits)

lemma ask_history:
  "ask self command = Some (Inr (data, self')) \<Longrightarrow>
   history self' = history self @ [CWrite command, CRead]"
  by (auto simp: ask_def split: sum.splits dest!: write_cmd_history read_history)

lemma ask_TRACE_REAL_history:
  "ask_TRACE_REAL unpack self a NumPoints = Some (Inr (data, self')) \<Longrightarrow>
   history self' = history self @ [CWrite (str ''TRAC?''), CRead]"
  by (auto simp: ask_TRACE_REAL_def split: sum.splits dest!: write_cmd_history read_TRACE_REAL_history)

text \<open>
  Claim C9. \<^verbatim>\<open>ask\<close> and \<^verbatim>\<open>ask_TRACE_REAL\<close> do one write and then one read (the two lemmas
  above), but \<^verbatim>\<open>ask_TRACE_ASCII\<close> does not: on a GPIB connection it writes \<^verbatim>\<open>FORM ASCII\<close>,
  writes \<^verbatim>\<open>TRAC?\<close> and reads once, so its first write is followed by a write.
\<close>

theorem ask_TRACE_ASCII_two_writes_one_read:
  "map_sum id (\<lambda>(x, self). history self)
     (ask_TRACE_ASCII (\<lambda>m. Inr [length m]) (gpib_bosa [[49, 44, 50, 13, 10]])) =
   Inr [CWrite (str ''FORM ASCII''), CWrite (str ''TRAC?''), CRead]"
  by (simp add: ask_TRACE_ASCII_def write_cmd_def read_TRACE_ASCII_def visa_read_ascii_values_def
      visa_write_def encode_ascii_def gpib_bosa_def lower_def str_def CRLF_def Let_def)

lemma del_twice:
  assumes "del self = Inr self1"
  shows "del self1 = Inr self1"
  using assms
  by (auto simp: del_def instrument_close_def sock_close_def visa_close_def message_attr_def
      split: if_splits sum.splits option.splits handle.splits)

lemma del_connected:
  assumes "connected self" "\<not> (case instrument self of Some (Socket s) \<Rightarrow> sock_close_fault s
     | Some (Visa v) \<Rightarrow> visa_close_fault v | None \<Rightarrow> False)"
  shows "\<exists>self'. del self = Inr self'"
  using assms
  by (auto simp: del_def connected_def instrument_close_def sock_close_def visa_close_def
      split: if_splits sum.splits option.splits handle.splits)

text \<open>
  Claim C8. A second \<^verbatim>\<open>__del__\<close> after one that returned returns too (lemma \<open>del_twice\<close>), but
  an error of the close is not kept from the caller: on an object whose \<^verbatim>\<open>open_resource\<close>
  failed, so that \<open>instrument\<close> was never assigned, \<^verbatim>\<open>self.instrument.close()\<close> raises, and the
  handler raises in turn when it evaluates \<^verbatim>\<open>e.message\<close>.
\<close>

theorem del_never_connected_raises:
  "del \<lparr>interfaceType = str ''GPIB'', instrument = None, printed = [], history = []\<rparr> =
     Inl AttributeError"
  by (simp add: del_def instrument_close_def message_attr_def upper_def str_def)

lemma del_dotless_i_raises:
  "upper (str ''gp'' @ [0x131] @ str ''b'') = str ''GPIB''
   \<and> init (str ''gp'' @ [0x131] @ str ''b'') location IDN Reset = Some (Inl Exception)
   \<and> del \<lparr>interfaceType = str ''gp'' @ [0x131] @ str ''b'', instrument = None, printed = [], history = []\<rparr> =
       Inl AttributeError"
  by (simp add: del_def instrument_close_def message_attr_def init_def upper_def lower_def str_def)

lemma del_close_fault_raises:
  "del ((lan_bosa fs e)\<lparr>instrument := Some (Socket \<lparr>frags = fs, at_end = e, sent = [],
        send_fault = False, recv_log = [], sock_closed = False, sock_close_fault = True\<rparr>)\<rparr>) =
     Inl AttributeError"
  by (simp add: del_def instrument_close_def sock_close_def message_attr_def lan_bosa_def upper_def str_def)
lemma py_in_text:
  "py_in (PStr on) [PInt 1, PInt 0, PStr (str ''1''), PStr (str ''0''), PBool True, PBool False] =
     (on \<in> set [str ''1'', str ''0''])"
  by (auto simp: py_in_def py_eq_def)

lemma py_eq_text_bool: "py_eq (PStr w) (PBool b) = False"
  by (simp add: py_eq_def)

text \<open>
  Claim C7, as the driver has it. \<^verbatim>\<open>set_state\<close> called with a string for \<open>on\<close>, when the
  state name is not HOLD or RUN (in any case of the letters) or \<open>on\<close> is neither \<^verbatim>\<open>"1"\<close> nor
  \<^verbatim>\<open>"0"\<close>, and \<^verbatim>\<open>set_bottomY\<close> called with a string for \<open>window\<close>, write nothing to the
  instrument, print one line and return \<^verbatim>\<open>None\<close>.
\<close>

theorem setters_reject:
  "(\<not> (upper meas_state \<in> set [str ''HOLD'', str ''RUN''] \<and> on \<in> set [str ''1'', str ''0'']) \<longrightarrow>
      set_state self meas_state (PStr on) =
        Some (Inr (PNone, print self (str ''Measurement state '' @ meas_state @ str '' or state '' @ on
                                       @ str '' not valid''))))
   \<and> set_bottomY self val magnitude (PStr w) scale =
        Some (Inr (PNone, print self (str ''Value for window must be boolean, instead it is '' @ w)))"
proof (intro conjI impI)
  assume "\<not> (upper meas_state \<in> set [str ''HOLD'', str ''RUN''] \<and> on \<in> set [str ''1'', str ''0''])"
  then have "\<not> (upper meas_state \<in> set [str ''HOLD'', str ''RUN'']
      \<and> py_in (PStr on) [PInt 1, PInt 0, PStr (str ''1''), PStr (str ''0''), PBool True, PBool False])"
    by (simp only: py_in_text simp_thms)
  then show "set_state self meas_state (PStr on) =
        Some (Inr (PNone, print self (str ''Measurement state '' @ meas_state @ str '' or state '' @ on
                                       @ str '' not valid'')))"
    unfolding set_state_def by (simp only: if_False py_concat.simps sum.case append_assoc)
next
  show "set_bottomY self val magnitude (PStr w) scale =
        Some (Inr (PNone, print self (str ''Value for window must be boolean, instead it is '' @ w)))"
    unfolding set_bottomY_def by (simp only: py_eq_text_bool simp_thms if_False py_concat.simps sum.case)
qed

theorem setters_reject_witness:
  "\<not> (upper (str ''walk'') \<in> set [str ''HOLD'', str ''RUN''] \<and> str ''1'' \<in> set [str ''1'', str ''0''])
   \<and> outcome (set_state (lan_bosa [] Silent) (str ''walk'') (PStr (str ''1''))) =
       Some (Inr (PNone, [str ''Measurement state walk or state 1 not valid''], []))
   \<and> outcome (set_bottomY (lan_bosa [] Silent) (PStr (str ''5'')) (PStr (str ''DBM'')) (PStr (str ''yes''))
         (PBool False)) =
       Some (Inr (PNone, [str ''Value for window must be boolean, instead it is yes''], []))"
proof -
  have h: "\<not> (upper (str ''walk'') \<in> set [str ''HOLD'', str ''RUN''] \<and> str ''1'' \<in> set [str ''1'', str ''0''])"
    by (simp add: upper_def str_def)
  from setters_reject [of "str ''walk''" "str ''1''" "lan_bosa [] Silent" "PStr (str ''5'')" "PStr (str ''DBM'')"
      "str ''yes''" "PBool False"] h
  show ?thesis
    by (simp add: outcome_def print_def wire_def lan_bosa_def str_def)
qed

text \<open>
  Claim C7 as stated fails. \<^verbatim>\<open>set_bottomY("5", "XYZ")\<close> has a magnitude outside \<^verbatim>\<open>DBM\<close>,
  \<^verbatim>\<open>MW\<close> and the empty string: the driver prints nothing and sends the command without the
  magnitude, then reads the reply.
\<close>

theorem set_bottomY_unknown_magnitude_counterexample:
  "outcome (set_bottomY (lan_bosa [[79, 75, 13, 10]] Silent) (PStr (str ''5'')) (PStr (str ''XYZ''))
       (PBool False) (PBool False)) =
     Some (Inr (PStr [79, 75, 13, 10], [], [ascii ''DISP:TRAC:Y:BOTT 5'' @ [13, 10]]))"
  apply (simp add: outcome_def set_bottomY_def ask_val_def ask_def write_cmd_def read_def py_eq_def
      upper_def lan_bosa_def lower_def str_def ascii_def CRLF_def utf8_encode_point_def sendall_def
      Let_def)
  apply (subst read_lan.simps)
  apply (simp add: recv_def wire_def)
  done

lemma set_state_number_raises:
  "set_state self (str ''RUN'') (PInt 2) = Some (Inl TypeError)"
  by (simp add: set_state_def py_in_def py_eq_def)

lemma set_bottomY_scale_raises:
  "set_bottomY self val magnitude (PBool False) (PStr w) = Some (Inl UnboundLocalError)"
  by (simp add: set_bottomY_def py_eq_def)

end
